theory Spec2Isabelle
  imports Complex_Main
begin

section \<open>JavaScript values\<close>

text \<open>
  The handler of \<^verbatim>\<open>src/api/webhooks/flutterwave.js\<close> works on parsed JSON: the request
  body, the provider's verification response, the document it writes and the response it
  sends are all plain JavaScript values. They are modelled by one datatype. An object is
  an association list; a property is looked up with \<open>map_of\<close>.

  A string is a list of characters. The source splits on and compares with ASCII text
  only, so the encoding of characters beyond ASCII does not matter here.
\<close>

datatype jsval =
    JUndefined
  | JNull
  | JBool bool
  | JNum real
  | JStr string
  | JArr "jsval list"
  | JObj "(string \<times> jsval) list"

text \<open>
  A thrown value. \<open>TypeError\<close> is raised by the engine or by a library on a bad argument;
  \<open>Rejected\<close> is a failure reported by an external service (the network, the provider,
  the database client). Both carry the text of \<^verbatim>\<open>error.message\<close>; for a \<open>TypeError\<close> it
  says what failed, in the words of the engine where they are short.
\<close>

datatype js_error = TypeError string | Rejected string

fun message :: "js_error \<Rightarrow> string" where
  "message (TypeError m) = m"
| "message (Rejected m) = m"

text \<open>
  Property read \<^verbatim>\<open>v.k\<close>. Reading a property of \<^verbatim>\<open>undefined\<close> or \<^verbatim>\<open>null\<close> throws;
  an object yields the property or \<^verbatim>\<open>undefined\<close>; every other value yields
  \<^verbatim>\<open>undefined\<close> for the property names the handler reads (none of them is inherited
  from a prototype).
\<close>

fun get_prop :: "jsval \<Rightarrow> string \<Rightarrow> js_error + jsval" where
  "get_prop JUndefined k =
     Inl (TypeError (''Cannot read properties of undefined (reading '' @
            [CHR 0x27] @ k @ [CHR 0x27] @ '')''))"
| "get_prop JNull k =
     Inl (TypeError (''Cannot read properties of null (reading '' @
            [CHR 0x27] @ k @ [CHR 0x27] @ '')''))"
| "get_prop (JObj kvs) k = Inr (case map_of kvs k of None \<Rightarrow> JUndefined | Some v \<Rightarrow> v)"
| "get_prop v k = Inr JUndefined"

section \<open>Strings\<close>

text \<open>\<^verbatim>\<open>s.charAt(i)\<close>: the one-character string at index \<open>i\<close>, the empty string out of range.\<close>

definition charAt :: "string \<Rightarrow> int \<Rightarrow> string" where
  "charAt s i = (if 0 \<le> i \<and> i < int (length s) then [s ! nat i] else [])"

text \<open>
  \<^verbatim>\<open>s.split(c)\<close> for a one-character separator: the segments between the separators,
  in order; a string with no separator is its own single segment.
\<close>

fun split :: "char \<Rightarrow> string \<Rightarrow> string list" where
  "split c [] = [[]]"
| "split c (x # xs) =
     (if x = c then [] # split c xs
      else (case split c xs of [] \<Rightarrow> [[x]] | p # ps \<Rightarrow> (x # p) # ps))"

text \<open>Decimal text of an integer, as a template literal prints it.\<close>

definition digit :: "nat \<Rightarrow> char" where
  "digit d = ''0123456789'' ! d"

function show_nat :: "nat \<Rightarrow> string" where
  "show_nat n = (if n < 10 then [digit n] else show_nat (n div 10) @ [digit (n mod 10)])"
  by pat_completeness auto
termination
  by (relation "measure id") auto

definition show_int :: "int \<Rightarrow> string" where
  "show_int i = (if i < 0 then CHR ''-'' # show_nat (nat (- i)) else show_nat (nat i))"

section \<open>Numbers\<close>

text \<open>
  A JavaScript number is a binary64 floating-point number. A finite one that is not
  negative is written here by a mantissa and an exponent: \<open>(m, e)\<close> is the number
  \<open>m * 2 ^ e\<close>. The numbers \<^verbatim>\<open>Math.random()\<close> returns are those with a mantissa below
  \<open>2 ^ 53\<close>, an exponent of at least \<open>- 1074\<close> and a value below 1.
\<close>

type_synonym double = "nat \<times> int"

definition dval :: "double \<Rightarrow> real" where
  "dval d = real (fst d) * 2 powi (snd d)"

text \<open>
  The product \<^verbatim>\<open>d * n\<close> of a number and a positive integer, as binary64 arithmetic
  computes it: the exact product \<open>M * 2 ^ e\<close> with \<open>M = m * n\<close>, rounded to 53 significant
  bits, to the nearest and to the even mantissa on a tie. \<open>excess M\<close> is the number of
  bits \<open>M\<close> has beyond 53, which the rounding drops. (For a number below 1 and the
  integer 36 the product is far from the largest binary64 number, and its last bit is
  never below \<open>2 ^ - 1074\<close>: neither overflow nor underflow occurs.)
\<close>

function excess :: "nat \<Rightarrow> nat" where
  "excess M = (if M < 2 ^ 53 then 0 else Suc (excess (M div 2)))"
  by pat_completeness auto
termination
  by (relation "measure id") auto

declare excess.simps [simp del]

definition nearest_even :: "nat \<Rightarrow> nat \<Rightarrow> nat" where
  "nearest_even M s =
     (if 2 ^ s < 2 * (M mod 2 ^ s) \<or> (2 * (M mod 2 ^ s) = 2 ^ s \<and> odd (M div 2 ^ s))
      then M div 2 ^ s + 1 else M div 2 ^ s)"

definition times64 :: "double \<Rightarrow> nat \<Rightarrow> double" where
  "times64 d n =
     (nearest_even (fst d * n) (excess (fst d * n)), snd d + int (excess (fst d * n)))"

text \<open>\<^verbatim>\<open>Math.floor\<close>: the greatest integer that is not above the number.\<close>

definition Math_floor :: "double \<Rightarrow> int" where
  "Math_floor d = \<lfloor>dval d\<rfloor>"

section \<open>The world outside the handler\<close>

text \<open>
  Everything the handler gets from its environment is a field of \<open>env\<close>: the configured
  secret, the library functions it calls (HMAC-SHA256 with hexadecimal output,
  \<^verbatim>\<open>JSON.stringify\<close>, \<^verbatim>\<open>Date.prototype.toISOString\<close>), the answer of the provider's
  verification endpoint for a transaction id, the values \<^verbatim>\<open>Math.random()\<close> returns (by
  call number), the two clock readings (\<^verbatim>\<open>new Date()\<close> and \<^verbatim>\<open>Date.now()\<close>, in
  milliseconds), and whether the database client refuses a write.
\<close>

record env =
  FLUTTERWAVE_WEBHOOK_HASH :: "string option"
  hmac_sha256_hex :: "string \<Rightarrow> string \<Rightarrow> string"
  JSON_stringify :: "jsval \<Rightarrow> string"
  fetch_verify :: "jsval \<Rightarrow> js_error + jsval"
  Math_random :: "nat \<Rightarrow> double"
  new_Date :: int
  Date_now :: int
  toISOString :: "int \<Rightarrow> string"
  firestore_refuses :: "string \<Rightarrow> jsval \<Rightarrow> string option"

text \<open>
  The database maps a document path to the document. \<open>writes\<close> lists the writes the
  database has accepted (path and document) and \<open>verify_calls\<close> the transaction ids for
  which the verification endpoint has been called, both oldest first.
\<close>

type_synonym database = "string \<rightharpoonup> jsval"

record world =
  db :: database
  writes :: "(string \<times> jsval) list"
  verify_calls :: "jsval list"

record request =
  req_method :: string
  req_headers :: "string \<rightharpoonup> string"
  req_body :: jsval

record response =
  res_status :: nat
  res_json :: jsval

section \<open>The source functions\<close>

text \<open>\<^verbatim>\<open>verifyFlutterwavePayment\<close>: the call is recorded; a failure is logged and thrown again.\<close>

definition verifyFlutterwavePayment :: "env \<Rightarrow> jsval \<Rightarrow> world \<Rightarrow> (js_error + jsval) \<times> world" where
  "verifyFlutterwavePayment e transactionId w =
     (let w' = w\<lparr>verify_calls := verify_calls w @ [transactionId]\<rparr>
      in case fetch_verify e transactionId of
           Inr data \<Rightarrow> (Inr data, w')
         | Inl error \<Rightarrow> (Inl error, w'))"

definition chars :: string where
  "chars = ''ABCDEFGHIJKLMNOPQRSTUVWXYZ0123456789''"

text \<open>
  \<^verbatim>\<open>generateAdCode\<close>: the loop \<^verbatim>\<open>for (let i = 0; i < 11; i++)\<close> with its accumulator;
  \<open>rnd i\<close> is the number the call of \<^verbatim>\<open>Math.random()\<close> in round \<open>i\<close> returns. The product
  \<^verbatim>\<open>Math.random() * chars.length\<close> is the binary64 product.
\<close>

function generateAdCode_loop :: "(nat \<Rightarrow> double) \<Rightarrow> nat \<Rightarrow> string \<Rightarrow> string" where
  "generateAdCode_loop rnd i result =
     (if i < 11
      then generateAdCode_loop rnd (i + 1)
             (result @ charAt chars (Math_floor (times64 (rnd i) (length chars))))
      else result)"
  by pat_completeness auto
termination
  by (relation "measure (\<lambda>(rnd, i, result). 11 - i)") auto

definition generateAdCode :: "(nat \<Rightarrow> double) \<Rightarrow> string" where
  "generateAdCode rnd = generateAdCode_loop rnd 0 ''AD''"

text \<open>\<^verbatim>\<open>parseTransactionRef\<close>; \<open>None\<close> is \<^verbatim>\<open>null\<close>.\<close>

definition parseTransactionRef :: "string \<Rightarrow> string option" where
  "parseTransactionRef txRef =
     (let parts = split CHR ''_'' txRef
      in if length parts \<ge> 3 \<and> parts ! 0 = ''boost'' then Some (parts ! 1) else None)"

text \<open>
  A chain of property reads \<^verbatim>\<open>v.k1.k2\<close>: the first read that throws ends the chain.
\<close>

fun get_path :: "jsval \<Rightarrow> string list \<Rightarrow> js_error + jsval" where
  "get_path v [] = Inr v"
| "get_path v (k # ks) = (case get_prop v k of Inl err \<Rightarrow> Inl err | Inr v' \<Rightarrow> get_path v' ks)"

text \<open>Sequencing of computations that may throw.\<close>

definition and_then :: "js_error + 'a \<Rightarrow> ('a \<Rightarrow> js_error + 'b) \<Rightarrow> js_error + 'b" where
  "and_then m f = (case m of Inl err \<Rightarrow> Inl err | Inr x \<Rightarrow> f x)"

definition packageId :: "env \<Rightarrow> string" where
  "packageId e = ''ads_pkg_'' @ show_int (Date_now e)"

text \<open>
  The object literal \<^verbatim>\<open>packageData\<close> (lines 131 to 182), its properties in the order
  of the source; \<open>now\<close> is \<^verbatim>\<open>new Date()\<close>. The reads of the verification response are
  evaluated in that order, and the first that throws ends the construction. Instants are
  integers (milliseconds since the epoch), and so is \<^verbatim>\<open>now.getTime() + 7 * 24 * 60 * 60 *
  1000\<close>: a clock reading and the instant 7 days after it are far inside the range in
  which a JavaScript number holds every integer and a \<^verbatim>\<open>Date\<close> is valid.
\<close>

definition packageData :: "env \<Rightarrow> jsval \<Rightarrow> string \<Rightarrow> js_error + jsval" where
  "packageData e verification adCode =
     (let now = new_Date e in
      and_then (get_path verification [''data'', ''amount'']) (\<lambda>amount.
      and_then (get_path verification [''data'', ''id'']) (\<lambda>paymentId.
      and_then (get_path verification [''data'', ''currency'']) (\<lambda>currency.
      and_then (get_path verification [''data'', ''customer'', ''email'']) (\<lambda>customerEmail.
      and_then (get_path verification [''data'', ''customer'', ''name'']) (\<lambda>customerName.
      and_then (get_path verification [''data'', ''tx_ref'']) (\<lambda>txRef.
      and_then (get_path verification [''data'', ''flw_ref'']) (\<lambda>flwRef.
      and_then (get_path verification [''data'', ''payment_type'']) (\<lambda>paymentType.
      Inr (JObj
        [(''packageId'', JStr (packageId e)),
         (''packageName'', JStr ''Webhook Package''),
         (''packageType'', JStr ''webhook''),
         (''status'', JStr ''pending_upload''),
         (''createdAt'', JStr (toISOString e now)),
         (''expiresAt'', JStr (toISOString e (now + (7 * 24 * 60 * 60 * 1000)))),
         (''totalAmountPaid'', amount),
         (''paymentId'', paymentId),
         (''adCode'', JStr adCode),
         (''currency'', currency),
         (''customerEmail'', customerEmail),
         (''customerName'', customerName),
         (''webhookProcessedAt'', JStr (toISOString e now)),
         (''flutterwaveData'', JObj
            [(''txRef'', txRef), (''flwRef'', flwRef), (''paymentType'', paymentType)]),
         (''adTypes'', JArr [JStr ''image'']),
         (''placements'', JArr [JStr ''app_ads_footer'']),
         (''duration'', JNum 7),
         (''ads'', JObj
            [(''image'', JObj
               [(''contentType'', JNull),
                (''dataUrl'', JNull),
                (''websiteUrl'', JNull),
                (''editsUsed'', JNum 0),
                (''totalEdits'', JNum 1),
                (''views'', JNum 0),
                (''clicks'', JNum 0),
                (''uploaded'', JBool False)])]),
         (''totalViews'', JNum 0),
         (''totalClicks'', JNum 0),
         (''viewsPerDay'', JObj [])]))))))))))"

text \<open>
  The write \<^verbatim>\<open>db.collection('physicalEvents').doc(eventId).collection('adsPackages')
  .doc(packageId).set(data)\<close>: the client either refuses (the call throws or the promise
  rejects) and the database is as before, or the document is stored under its path.
\<close>

definition doc_path :: "string \<Rightarrow> string \<Rightarrow> string" where
  "doc_path eventId pkgId = ''physicalEvents/'' @ eventId @ ''/adsPackages/'' @ pkgId"

definition firestore_set :: "env \<Rightarrow> string \<Rightarrow> jsval \<Rightarrow> world \<Rightarrow> (js_error + unit) \<times> world" where
  "firestore_set e path data w =
     (case firestore_refuses e path data of
        Some m \<Rightarrow> (Inl (Rejected m), w)
      | None \<Rightarrow> (Inr (), w\<lparr>db := (db w)(path \<mapsto> data), writes := writes w @ [(path, data)]\<rparr>))"

text \<open>Lines 125 to 205: the code, the record, the write and the success response.\<close>

definition persist :: "env \<Rightarrow> jsval \<Rightarrow> string \<Rightarrow> world \<Rightarrow> (js_error + response) \<times> world" where
  "persist e verification eventId w =
     (let adCode = generateAdCode (Math_random e) in
      case packageData e verification adCode of
        Inl err \<Rightarrow> (Inl err, w)
      | Inr data \<Rightarrow>
          (case firestore_set e (doc_path eventId (packageId e)) data w of
             (Inl err, w') \<Rightarrow> (Inl err, w')
           | (Inr _, w') \<Rightarrow>
               (case get_path verification [''data'', ''amount''] of
                  Inl err \<Rightarrow> (Inl err, w')
                | Inr amount \<Rightarrow>
                    (Inr \<lparr>res_status = 200,
                          res_json = JObj
                            [(''success'', JBool True),
                             (''message'', JStr ''Payment processed successfully''),
                             (''data'', JObj
                                [(''eventId'', JStr eventId),
                                 (''packageId'', JStr (packageId e)),
                                 (''adCode'', JStr adCode),
                                 (''amount'', amount)])]\<rparr>, w'))))"

text \<open>
  Lines 116 to 121, then the rest. The call \<^verbatim>\<open>txRef.split('_')\<close> needs a string: on
  \<^verbatim>\<open>undefined\<close> and \<^verbatim>\<open>null\<close> the read of \<^verbatim>\<open>split\<close> throws, and on any other value of
  JSON what is read is not a function. \<^verbatim>\<open>!eventId\<close> holds for \<^verbatim>\<open>null\<close> and for the
  empty string.
\<close>

definition extract_and_persist ::
    "env \<Rightarrow> jsval \<Rightarrow> jsval \<Rightarrow> world \<Rightarrow> (js_error + response) \<times> world" where
  "extract_and_persist e data verification w =
     (case get_prop data ''tx_ref'' of
        Inl err \<Rightarrow> (Inl err, w)
      | Inr (JStr txRef) \<Rightarrow>
          (case parseTransactionRef txRef of
             None \<Rightarrow>
               (Inr \<lparr>res_status = 400,
                     res_json = JObj [(''error'', JStr ''Invalid transaction reference'')]\<rparr>, w)
           | Some eventId \<Rightarrow>
               if eventId = ''''
               then (Inr \<lparr>res_status = 400,
                          res_json = JObj [(''error'', JStr ''Invalid transaction reference'')]\<rparr>, w)
               else persist e verification eventId w)
      | Inr txRef \<Rightarrow>
          (case get_prop txRef ''split'' of
             Inl err \<Rightarrow> (Inl err, w)
           | Inr _ \<Rightarrow> (Inl (TypeError ''txRef.split is not a function''), w)))"

text \<open>Lines 106 to 112, then the rest.\<close>

definition verify_and_persist :: "env \<Rightarrow> jsval \<Rightarrow> world \<Rightarrow> (js_error + response) \<times> world" where
  "verify_and_persist e data w =
     (case get_prop data ''id'' of
        Inl err \<Rightarrow> (Inl err, w)
      | Inr transactionId \<Rightarrow>
          (case verifyFlutterwavePayment e transactionId w of
             (Inl err, w') \<Rightarrow> (Inl err, w')
           | (Inr verification, w') \<Rightarrow>
               (case get_prop verification ''status'' of
                  Inl err \<Rightarrow> (Inl err, w')
                | Inr vstatus \<Rightarrow>
                    if vstatus \<noteq> JStr ''success''
                    then (Inr \<lparr>res_status = 400,
                               res_json = JObj [(''error'', JStr ''Payment verification failed'')]\<rparr>, w')
                    else
                      (case get_path verification [''data'', ''status''] of
                         Inl err \<Rightarrow> (Inl err, w')
                       | Inr vdstatus \<Rightarrow>
                           if vdstatus \<noteq> JStr ''successful''
                           then (Inr \<lparr>res_status = 400,
                                      res_json = JObj [(''error'', JStr ''Payment verification failed'')]\<rparr>, w')
                           else extract_and_persist e data verification w'))))"

text \<open>
  Lines 90 to 97, then the rest: the destructuring of the body, and the filter with its
  short-circuit \<^verbatim>\<open>||\<close> (\<^verbatim>\<open>data.status\<close> is read only for a \<^verbatim>\<open>charge.completed\<close> event).
\<close>

definition filter_and_process :: "env \<Rightarrow> jsval \<Rightarrow> world \<Rightarrow> (js_error + response) \<times> world" where
  "filter_and_process e body w =
     (case get_prop body ''event'' of
        Inl err \<Rightarrow> (Inl err, w)
      | Inr event \<Rightarrow>
          (case get_prop body ''data'' of
             Inl err \<Rightarrow> (Inl err, w)
           | Inr data \<Rightarrow>
               if event \<noteq> JStr ''charge.completed''
               then (Inr \<lparr>res_status = 200,
                          res_json = JObj [(''message'', JStr ''Event ignored'')]\<rparr>, w)
               else
                 (case get_prop data ''status'' of
                    Inl err \<Rightarrow> (Inl err, w)
                  | Inr status \<Rightarrow>
                      if status \<noteq> JStr ''successful''
                      then (Inr \<lparr>res_status = 200,
                                 res_json = JObj [(''message'', JStr ''Event ignored'')]\<rparr>, w)
                      else verify_and_persist e data w)))"

text \<open>
  The body of the \<^verbatim>\<open>try\<close> block (lines 70 to 205). \<^verbatim>\<open>createHmac\<close> throws when the
  secret is not configured, and \<^verbatim>\<open>update\<close> throws when \<^verbatim>\<open>JSON.stringify\<close> yields
  \<^verbatim>\<open>undefined\<close>, which it does for an absent body only. A missing header is
  \<^verbatim>\<open>undefined\<close> and differs from every hash.
\<close>

definition handler_try :: "env \<Rightarrow> request \<Rightarrow> world \<Rightarrow> (js_error + response) \<times> world" where
  "handler_try e req w =
     (case FLUTTERWAVE_WEBHOOK_HASH e of
        None \<Rightarrow> (Inl (TypeError ''The key argument must be of type string''), w)
      | Some secret \<Rightarrow>
          if req_body req = JUndefined
          then (Inl (TypeError ''The data argument must be of type string''), w)
          else
            let hash = hmac_sha256_hex e secret (JSON_stringify e (req_body req));
                signature = req_headers req ''verif-hash''
            in if Some hash \<noteq> signature
               then (Inr \<lparr>res_status = 401,
                          res_json = JObj [(''error'', JStr ''Invalid signature'')]\<rparr>, w)
               else filter_and_process e (req_body req) w)"

text \<open>The \<^verbatim>\<open>catch\<close> block: a thrown error becomes a 500 response carrying its message.\<close>

definition catch :: "(js_error + response) \<times> world \<Rightarrow> response \<times> world" where
  "catch r =
     (case r of
        (Inr res, w') \<Rightarrow> (res, w')
      | (Inl error, w') \<Rightarrow>
          (\<lparr>res_status = 500,
            res_json = JObj [(''error'', JStr ''Internal server error''),
                             (''message'', JStr (message error))]\<rparr>, w'))"

text \<open>
  \<^verbatim>\<open>handler\<close>: the check of the method, then the \<^verbatim>\<open>try\<close> block under its \<^verbatim>\<open>catch\<close>. The
  result is the response sent and the world afterwards.
\<close>

definition handler :: "env \<Rightarrow> request \<Rightarrow> world \<Rightarrow> response \<times> world" where
  "handler e req w =
     (if req_method req \<noteq> ''POST''
      then (\<lparr>res_status = 405, res_json = JObj [(''error'', JStr ''Method not allowed'')]\<rparr>, w)
      else catch (handler_try e req w))"

section \<open>The vocabulary of the specification\<close>

text \<open>The characters of the class \<^verbatim>\<open>[A-Z0-9]\<close>, by their codes.\<close>

definition upper_or_digit :: "char \<Rightarrow> bool" where
  "upper_or_digit c =
     (let n = (of_char c :: nat) in (65 \<le> n \<and> n \<le> 90) \<or> (48 \<le> n \<and> n \<le> 57))"

text \<open>
  The four conditions of the persistence invariant, each read off the request and the
  environment: the signature verifies; the event is a successful charge; the provider,
  asked about the transaction id of the event, answers with a successful verification;
  the reference of the event yields an identifier.
\<close>

definition signature_verified :: "env \<Rightarrow> request \<Rightarrow> bool" where
  "signature_verified e req =
     (case FLUTTERWAVE_WEBHOOK_HASH e of
        None \<Rightarrow> False
      | Some secret \<Rightarrow>
          req_body req \<noteq> JUndefined \<and>
          req_headers req ''verif-hash'' =
            Some (hmac_sha256_hex e secret (JSON_stringify e (req_body req))))"

definition event_successful :: "jsval \<Rightarrow> bool" where
  "event_successful body =
     (get_prop body ''event'' = Inr (JStr ''charge.completed'') \<and>
      get_path body [''data'', ''status''] = Inr (JStr ''successful''))"

definition verification_of :: "env \<Rightarrow> jsval \<Rightarrow> jsval option" where
  "verification_of e body =
     (case get_path body [''data'', ''id''] of
        Inl err \<Rightarrow> None
      | Inr transactionId \<Rightarrow>
          (case fetch_verify e transactionId of Inl err \<Rightarrow> None | Inr v \<Rightarrow> Some v))"

definition verification_successful :: "jsval \<Rightarrow> bool" where
  "verification_successful v =
     (get_prop v ''status'' = Inr (JStr ''success'') \<and>
      get_path v [''data'', ''status''] = Inr (JStr ''successful''))"

definition identifier_of :: "jsval \<Rightarrow> string option" where
  "identifier_of body =
     (case get_path body [''data'', ''tx_ref''] of
        Inr (JStr txRef) \<Rightarrow> parseTransactionRef txRef
      | _ \<Rightarrow> None)"

text \<open>
  The numbers \<^verbatim>\<open>Math.random()\<close> may return, and the index
  \<^verbatim>\<open>Math.floor(Math.random() * 36)\<close> of one of them.
\<close>

definition unit_double :: "double \<Rightarrow> bool" where
  "unit_double d = (fst d < 2 ^ 53 \<and> - 1074 \<le> snd d \<and> dval d < 1)"

definition pick :: "double \<Rightarrow> nat" where
  "pick d = nat (Math_floor (times64 d 36))"

text \<open>The segments of a string put together again, the separator between them.\<close>

fun join :: "char \<Rightarrow> string list \<Rightarrow> string" where
  "join c [] = []"
| "join c [p] = p"
| "join c (p # q # ps) = p @ c # join c (q # ps)"


text \<open>
  The third and the fourth condition as predicates, and what the other claims say of the
  world: \<open>unchanged\<close> is "no database write"; \<open>store\<close> is the world after the write
  of one document; \<open>success\<close> is the response that follows it.
\<close>

definition reverified :: "env \<Rightarrow> jsval \<Rightarrow> bool" where
  "reverified e body =
     (case verification_of e body of None \<Rightarrow> False | Some v \<Rightarrow> verification_successful v)"

definition identifier_recovered :: "jsval \<Rightarrow> bool" where
  "identifier_recovered body =
     (case identifier_of body of None \<Rightarrow> False | Some eventId \<Rightarrow> eventId \<noteq> '''')"

definition unchanged :: "world \<Rightarrow> world \<Rightarrow> bool" where
  "unchanged w w' = (db w' = db w \<and> writes w' = writes w)"

definition store :: "string \<Rightarrow> jsval \<Rightarrow> world \<Rightarrow> world" where
  "store path doc w = w\<lparr>db := (db w)(path \<mapsto> doc), writes := writes w @ [(path, doc)]\<rparr>"

definition success :: "env \<Rightarrow> string \<Rightarrow> jsval \<Rightarrow> response" where
  "success e eventId amount =
     \<lparr>res_status = 200,
      res_json = JObj
        [(''success'', JBool True),
         (''message'', JStr ''Payment processed successfully''),
         (''data'', JObj
            [(''eventId'', JStr eventId),
             (''packageId'', JStr (packageId e)),
             (''adCode'', JStr (generateAdCode (Math_random e))),
             (''amount'', amount)])]\<rparr>"


text \<open>
  The payment fields of a stored document \<open>doc\<close> are the fields of the verification
  response \<open>v\<close>.
\<close>

definition payment_fields_from :: "jsval \<Rightarrow> jsval \<Rightarrow> bool" where
  "payment_fields_from doc v =
     (get_prop doc ''totalAmountPaid'' = get_path v [''data'', ''amount''] \<and>
      get_prop doc ''paymentId'' = get_path v [''data'', ''id''] \<and>
      get_prop doc ''currency'' = get_path v [''data'', ''currency''] \<and>
      get_prop doc ''customerEmail'' = get_path v [''data'', ''customer'', ''email''] \<and>
      get_prop doc ''customerName'' = get_path v [''data'', ''customer'', ''name''] \<and>
      get_path doc [''flutterwaveData'', ''txRef''] = get_path v [''data'', ''tx_ref''] \<and>
      get_path doc [''flutterwaveData'', ''flwRef''] = get_path v [''data'', ''flw_ref''] \<and>
      get_path doc [''flutterwaveData'', ''paymentType''] =
        get_path v [''data'', ''payment_type''])"

section \<open>A worked example\<close>

text \<open>
  The happy path of the specification: a signed \<^verbatim>\<open>charge.completed\<close> event for the
  reference \<^verbatim>\<open>boost_evt123_1699999999\<close>, verified by the provider with amount 5000
  and currency NGN. The environment of the example has stand-ins for the serialiser and
  the keyed hash, and \<^verbatim>\<open>toISOString\<close> as the language defines it: the civil date of the
  proleptic Gregorian calendar in UTC, then the time of day. \<open>pad\<close> writes a number with
  leading zeros (to a width of at most 6).
\<close>

definition pad :: "nat \<Rightarrow> nat \<Rightarrow> string" where
  "pad width n = drop (6 - width + length (show_nat n)) ''000000'' @ show_nat n"

definition day_of_era :: "int \<Rightarrow> int" where
  "day_of_era z = (z + 719468) mod 146097"

definition year_of_era :: "int \<Rightarrow> int" where
  "year_of_era doe = (doe - doe div 1460 + doe div 36524 - doe div 146096) div 365"

definition day_of_year :: "int \<Rightarrow> int" where
  "day_of_year doe =
     doe - (365 * year_of_era doe + year_of_era doe div 4 - year_of_era doe div 100)"

definition month_index :: "int \<Rightarrow> int" where
  "month_index z = (5 * day_of_year (day_of_era z) + 2) div 153"

definition civil_day :: "int \<Rightarrow> int" where
  "civil_day z = day_of_year (day_of_era z) - (153 * month_index z + 2) div 5 + 1"

definition civil_month :: "int \<Rightarrow> int" where
  "civil_month z = (if month_index z < 10 then month_index z + 3 else month_index z - 9)"

definition civil_year :: "int \<Rightarrow> int" where
  "civil_year z =
     year_of_era (day_of_era z) + ((z + 719468) div 146097) * 400 +
     (if civil_month z \<le> 2 then 1 else 0)"

definition iso_year :: "int \<Rightarrow> string" where
  "iso_year y =
     (if 0 \<le> y \<and> y \<le> 9999 then pad 4 (nat y)
      else (if y < 0 then ''-'' else ''+'') @ pad 6 (nat \<bar>y\<bar>))"

definition iso_string :: "int \<Rightarrow> string" where
  "iso_string t =
     iso_year (civil_year (t div 86400000)) @ ''-'' @
     pad 2 (nat (civil_month (t div 86400000))) @ ''-'' @
     pad 2 (nat (civil_day (t div 86400000))) @ ''T'' @
     pad 2 (nat (t div 3600000 mod 24)) @ '':'' @
     pad 2 (nat (t div 60000 mod 60)) @ '':'' @
     pad 2 (nat (t div 1000 mod 60)) @ ''.'' @
     pad 3 (nat (t mod 1000)) @ ''Z''"

fun demo_stringify :: "jsval \<Rightarrow> string" where
  "demo_stringify JUndefined = ''undefined''"
| "demo_stringify JNull = ''null''"
| "demo_stringify (JBool b) = (if b then ''true'' else ''false'')"
| "demo_stringify (JNum r) = show_int \<lfloor>r\<rfloor>"
| "demo_stringify (JStr s) = ''<'' @ s @ ''>''"
| "demo_stringify (JArr vs) = ''['' @ concat (map (\<lambda>v. demo_stringify v @ '','') vs) @ '']''"
| "demo_stringify (JObj kvs) =
     ''{'' @ concat (map (\<lambda>(k, v). k @ '':'' @ demo_stringify v @ '','') kvs) @ ''}''"

definition demo_payment :: "string \<Rightarrow> real \<Rightarrow> string \<Rightarrow> string \<Rightarrow> jsval" where
  "demo_payment status amount currency txRef =
     JObj [(''id'', JNum 4242),
           (''status'', JStr status),
           (''amount'', JNum amount),
           (''currency'', JStr currency),
           (''tx_ref'', JStr txRef),
           (''flw_ref'', JStr ''FLW-REF-1''),
           (''payment_type'', JStr ''card''),
           (''customer'', JObj [(''email'', JStr ''ada@example.com''), (''name'', JStr ''Ada'')])]"

definition demo_body :: "string \<Rightarrow> jsval \<Rightarrow> jsval" where
  "demo_body event payment = JObj [(''event'', JStr event), (''data'', payment)]"

definition happy_body :: jsval where
  "happy_body =
     demo_body ''charge.completed''
       (demo_payment ''successful'' 5000 ''NGN'' ''boost_evt123_1699999999'')"

definition demo_verification :: jsval where
  "demo_verification =
     JObj [(''status'', JStr ''success''),
           (''message'', JStr ''Transaction fetched successfully''),
           (''data'', demo_payment ''successful'' 5000 ''NGN'' ''boost_evt123_1699999999'')]"

definition demo_env :: env where
  "demo_env =
     \<lparr>FLUTTERWAVE_WEBHOOK_HASH = Some ''demo-secret'',
      hmac_sha256_hex = (\<lambda>key text. key @ ''/'' @ text),
      JSON_stringify = demo_stringify,
      fetch_verify = (\<lambda>transactionId.
         if transactionId = JNum 4242 then Inr demo_verification
         else Inl (Rejected ''fetch failed'')),
      Math_random = (\<lambda>i. (1, - 1)),
      new_Date = 1699999999000,
      Date_now = 1699999999001,
      toISOString = iso_string,
      firestore_refuses = (\<lambda>path data. None)\<rparr>"

definition demo_request :: "jsval \<Rightarrow> request" where
  "demo_request body =
     \<lparr>req_method = ''POST'',
      req_headers = [''verif-hash'' \<mapsto> ''demo-secret/'' @ demo_stringify body],
      req_body = body\<rparr>"

definition demo_world :: world where
  "demo_world = \<lparr>db = Map.empty, writes = [], verify_calls = []\<rparr>"

text \<open>The document and the path the specification expects for the happy path.\<close>

definition demo_path :: string where
  "demo_path = ''physicalEvents/evt123/adsPackages/ads_pkg_1699999999001''"

definition demo_document :: jsval where
  "demo_document =
     JObj
       [(''packageId'', JStr ''ads_pkg_1699999999001''),
        (''packageName'', JStr ''Webhook Package''),
        (''packageType'', JStr ''webhook''),
        (''status'', JStr ''pending_upload''),
        (''createdAt'', JStr ''2023-11-14T22:13:19.000Z''),
        (''expiresAt'', JStr ''2023-11-21T22:13:19.000Z''),
        (''totalAmountPaid'', JNum 5000),
        (''paymentId'', JNum 4242),
        (''adCode'', JStr ''ADSSSSSSSSSSS''),
        (''currency'', JStr ''NGN''),
        (''customerEmail'', JStr ''ada@example.com''),
        (''customerName'', JStr ''Ada''),
        (''webhookProcessedAt'', JStr ''2023-11-14T22:13:19.000Z''),
        (''flutterwaveData'', JObj
           [(''txRef'', JStr ''boost_evt123_1699999999''),
            (''flwRef'', JStr ''FLW-REF-1''),
            (''paymentType'', JStr ''card'')]),
        (''adTypes'', JArr [JStr ''image'']),
        (''placements'', JArr [JStr ''app_ads_footer'']),
        (''duration'', JNum 7),
        (''ads'', JObj
           [(''image'', JObj
              [(''contentType'', JNull),
               (''dataUrl'', JNull),
               (''websiteUrl'', JNull),
               (''editsUsed'', JNum 0),
               (''totalEdits'', JNum 1),
               (''views'', JNum 0),
               (''clicks'', JNum 0),
               (''uploaded'', JBool False)])]),
        (''totalViews'', JNum 0),
        (''totalClicks'', JNum 0),
        (''viewsPerDay'', JObj [])]"

text \<open>
  Inputs at which the code departs from the specification: a number just below 25/36 whose
  binary64 product with 36 is 25, as the value of every call of \<^verbatim>\<open>Math.random()\<close>; a
  \<^verbatim>\<open>charge.completed\<close> event that carries no data; and an environment in which the provider
  answers with the status \<^verbatim>\<open>success\<close> and no data.
\<close>

definition below_25_36 :: double where
  "below_25_36 = (3127499741229511, - 52)"

definition rounding_random :: "nat \<Rightarrow> double" where
  "rounding_random i = below_25_36"

definition event_without_data :: jsval where
  "event_without_data = JObj [(''event'', JStr ''charge.completed'')]"

definition verification_without_data :: jsval where
  "verification_without_data = JObj [(''status'', JStr ''success'')]"

definition demo_env_without_data :: env where
  "demo_env_without_data =
     demo_env\<lparr>fetch_verify := \<lambda>transactionId. Inr verification_without_data\<rparr>"

section \<open>The ad code\<close>

lemma length_chars: "length chars = 36"
  by (simp add: chars_def)

lemma distinct_chars: "distinct chars"
  by (simp add: chars_def)

lemma chars_all: "list_all upper_or_digit chars"
  by (simp add: chars_def upper_or_digit_def)

lemma chars_enum: "map char_of ([65..<91] @ [48..<58] :: nat list) = chars"
  by code_simp

lemma upper_or_digit_in_chars:
  assumes "upper_or_digit c"
  shows "c \<in> set chars"
proof -
  define n where "n = (of_char c :: nat)"
  have c: "c = char_of n" by (simp add: n_def)
  from assms have "n \<in> {65..<91} \<union> {48..<58}"
    by (auto simp: upper_or_digit_def n_def Let_def)
  then have "n \<in> set ([65..<91] @ [48..<58])"
    unfolding set_append set_upt .
  then have "char_of n \<in> char_of ` set ([65..<91] @ [48..<58] :: nat list)"
    by (rule imageI)
  then have "char_of n \<in> set (map char_of ([65..<91] @ [48..<58] :: nat list))"
    unfolding set_map .
  then have "char_of n \<in> set chars"
    unfolding chars_enum .
  then show ?thesis unfolding c .
qed

lemma set_chars: "set chars = {c. upper_or_digit c}"
  using chars_all upper_or_digit_in_chars by (auto simp: list_all_iff)

text \<open>The loop appends one \<open>charAt\<close> result for each remaining index.\<close>

lemma generateAdCode_loop_unroll:
  "generateAdCode_loop rnd i res =
     res @ concat (map (\<lambda>j. charAt chars (Math_floor (times64 (rnd j) (length chars)))) [i..<11])"
proof (induction rnd i res rule: generateAdCode_loop.induct)
  case (1 rnd i result)
  show ?case
  proof (cases "i < 11")
    case True
    then have "[i..<11] = i # [i + 1..<11]"
      by (simp add: upt_conv_Cons)
    with True 1 show ?thesis
      by (simp del: generateAdCode_loop.simps add: generateAdCode_loop.simps [of rnd i])
  next
    case False
    then show ?thesis by simp
  qed
qed

subsection \<open>The rounding of the product\<close>

text \<open>What is left of the exact mantissa after the rounding has 53 bits.\<close>

lemma excess_bound: "M div 2 ^ excess M < 2 ^ 53"
proof (induction M rule: excess.induct)
  case (1 M)
  show ?case
  proof (cases "M < 2 ^ 53")
    case True
    then show ?thesis by (simp add: excess.simps [of M])
  next
    case False
    have "M div 2 ^ Suc (excess (M div 2)) = (M div 2) div 2 ^ excess (M div 2)"
      by (simp add: div_mult2_eq)
    with False 1 show ?thesis
      by (simp add: excess.simps [of M])
  qed
qed

lemma times64_mantissa: "fst (times64 d n) \<le> 2 ^ 53"
proof -
  have "nearest_even (fst d * n) (excess (fst d * n)) \<le> fst d * n div 2 ^ excess (fst d * n) + 1"
    by (simp add: nearest_even_def)
  also have "\<dots> \<le> 2 ^ 53"
    using excess_bound [of "fst d * n"] by simp
  finally show ?thesis
    by (simp add: times64_def)
qed

lemma excess_large: "0 < excess M \<Longrightarrow> 2 ^ 52 \<le> M div 2 ^ excess M"
proof (induction M rule: excess.induct)
  case (1 M)
  show ?case
  proof (cases "M < 2 ^ 53")
    case True
    with 1(2) show ?thesis by (simp add: excess.simps [of M])
  next
    case False
    have e: "excess M = Suc (excess (M div 2))"
      using False by (simp add: excess.simps [of M])
    have d: "M div 2 ^ Suc (excess (M div 2)) = (M div 2) div 2 ^ excess (M div 2)"
      by (simp add: div_mult2_eq)
    show ?thesis
    proof (cases "excess (M div 2) = 0")
      case True
      with False show ?thesis
        unfolding e d by simp
    next
      case nz: False
      with 1(1) [OF False] show ?thesis
        unfolding e d by simp
    qed
  qed
qed

lemma excess_small: "M < 2 ^ 53 \<Longrightarrow> excess M = 0"
  by (simp add: excess.simps [of M])

lemma excess_0_iff: "excess M = 0 \<longleftrightarrow> M < 2 ^ 53"
  by (simp add: excess.simps [of M])

lemma nearest_even_0: "nearest_even M 0 = M"
  by (simp add: nearest_even_def)

lemma nearest_even_lower: "M div 2 ^ s \<le> nearest_even M s"
  by (simp add: nearest_even_def)

lemma nearest_even_upper: "2 * (nearest_even M s * 2 ^ s) \<le> 2 * M + 2 ^ s"
proof -
  have M: "M div 2 ^ s * 2 ^ s + M mod 2 ^ s = M"
    by (rule div_mult_mod_eq)
  show ?thesis
  proof (cases "2 ^ s < 2 * (M mod 2 ^ s) \<or> (2 * (M mod 2 ^ s) = 2 ^ s \<and> odd (M div 2 ^ s))")
    case True
    then have "2 ^ s \<le> 2 * (M mod 2 ^ s)"
      by auto
    moreover have "nearest_even M s = M div 2 ^ s + 1"
      using True by (simp add: nearest_even_def)
    ultimately have "2 * (nearest_even M s * 2 ^ s) \<le> 2 * (M div 2 ^ s * 2 ^ s + M mod 2 ^ s) + 2 ^ s"
      by (simp only: add_mult_distrib add_mult_distrib2 mult_1)
    then show ?thesis
      unfolding M .
  next
    case False
    then have "nearest_even M s = M div 2 ^ s"
      by (simp add: nearest_even_def)
    moreover have "M div 2 ^ s * 2 ^ s \<le> M"
      by simp
    ultimately show ?thesis
      by (simp only: trans_le_add1 mult_le_mono2)
  qed
qed

lemma powi_neg: "(2::real) powi (- int k) = 1 / 2 ^ k"
  by (simp add: power_int_minus inverse_eq_divide)

lemma powi_add_nat: "(2::real) powi (e + int s) = 2 powi e * 2 ^ s"
  by (simp add: power_int_add)

lemma dval_times64:
  "dval (times64 d n) =
     real (nearest_even (fst d * n) (excess (fst d * n))) * 2 ^ excess (fst d * n) * 2 powi snd d"
  by (simp add: dval_def times64_def powi_add_nat)

lemma times64_exact: "fst d * n < 2 ^ 53 \<Longrightarrow> dval (times64 d n) = dval d * real n"
  unfolding dval_times64 by (simp add: excess_small nearest_even_0 dval_def)

lemma times64_upper:
  "dval (times64 d n) \<le> dval d * real n + 2 ^ excess (fst d * n) * 2 powi snd d / 2"
proof -
  let ?M = "fst d * n" and ?s = "excess (fst d * n)"
  have "real (2 * (nearest_even ?M ?s * 2 ^ ?s)) \<le> real (2 * ?M + 2 ^ ?s)"
    using nearest_even_upper [of ?M ?s] by (rule of_nat_mono)
  then have "real (nearest_even ?M ?s) * 2 ^ ?s \<le> real ?M + 2 ^ ?s / 2"
    by simp
  moreover have "0 \<le> (2::real) powi snd d"
    by simp
  ultimately have "real (nearest_even ?M ?s) * 2 ^ ?s * 2 powi snd d
      \<le> (real ?M + 2 ^ ?s / 2) * 2 powi snd d"
    by (rule mult_right_mono)
  then show ?thesis
    unfolding dval_times64 by (simp add: dval_def algebra_simps)
qed

lemma ulp_bound:
  assumes "0 < excess (fst d * n)"
  shows "2 ^ 52 * (2 ^ excess (fst d * n) * 2 powi snd d) \<le> dval d * real n"
proof -
  let ?M = "fst d * n" and ?s = "excess (fst d * n)"
  have "2 ^ 52 * 2 ^ ?s \<le> ?M div 2 ^ ?s * 2 ^ ?s"
    using excess_large [OF assms] by simp
  also have "\<dots> \<le> ?M"
    by simp
  finally have "real (2 ^ 52 * 2 ^ ?s) \<le> real ?M"
    by (rule of_nat_mono)
  then have "2 ^ 52 * 2 ^ ?s * 2 powi snd d \<le> real ?M * 2 powi snd d"
    by (intro mult_right_mono) simp_all
  then show ?thesis
    by (simp add: dval_def algebra_simps)
qed

text \<open>
  An exact product that is below an integer by \<open>36 / 2 ^ 53\<close> at least is rounded to a
  number below that integer.
\<close>

lemma times64_below:
  assumes "dval d * real n \<le> real K - 36 / 2 ^ 53" and "K \<le> 36"
  shows "dval (times64 d n) < real K"
proof (cases "excess (fst d * n) = 0")
  case True
  then have "fst d * n < 2 ^ 53"
    by (simp add: excess_0_iff)
  with assms show ?thesis
    by (simp add: times64_exact)
next
  case False
  define u where "u = (2::real) ^ excess (fst d * n) * 2 powi snd d"
  define y where "y = dval d * real n"
  from False have "2 ^ 52 * u \<le> y"
    unfolding u_def y_def by (intro ulp_bound) simp
  moreover have "y \<le> real K - 36 / 2 ^ 53" and "real K \<le> 36"
    using assms by (simp_all add: y_def)
  moreover have "dval (times64 d n) \<le> y + u / 2"
    unfolding u_def y_def by (rule times64_upper)
  ultimately show ?thesis
    by simp
qed

text \<open>An exact product that is not below an integer is rounded to a number not below it.\<close>

lemma times64_above:
  assumes "real K \<le> dval d * real n" and "dval d * real n < 36"
  shows "real K \<le> dval (times64 d n)"
proof (cases "excess (fst d * n) = 0")
  case True
  then have "fst d * n < 2 ^ 53"
    by (simp add: excess_0_iff)
  with assms show ?thesis
    by (simp add: times64_exact)
next
  case False
  let ?M = "fst d * n" and ?s = "excess (fst d * n)"
  let ?u = "(2::real) ^ ?s * 2 powi snd d"
  from False have "2 ^ 52 * ?u \<le> dval d * real n"
    by (intro ulp_bound) simp
  from this assms(2) have b: "2 ^ 52 * ?u < 36"
    by (rule le_less_trans)
  have "?u < 1"
  proof -
    define u where "u = ?u"
    from b have "2 ^ 52 * u < 36"
      by (simp only: u_def)
    then have "u < 1"
      by simp
    then show ?thesis
      by (simp only: u_def)
  qed
  then have u1: "(2::real) powi (snd d + int ?s) < 1"
    by (simp add: powi_add_nat mult.commute)
  have neg: "snd d + int ?s < 0"
  proof (rule ccontr)
    assume "\<not> snd d + int ?s < 0"
    then have "(1::real) \<le> 2 powi (snd d + int ?s)"
      by (intro one_le_power_int) simp_all
    with u1 show False by simp
  qed
  define j where "j = nat (- (snd d + int ?s))"
  have e: "snd d = - int (j + ?s)"
    using neg by (simp add: j_def)
  have p: "(2::real) powi snd d = 1 / 2 ^ (j + ?s)"
    by (subst e) (rule powi_neg)
  from assms(1) have "real K \<le> real ?M / 2 ^ (j + ?s)"
    by (simp add: dval_def p)
  then have "real K * 2 ^ (j + ?s) \<le> real ?M"
    by (simp add: field_simps)
  then have "real (K * 2 ^ j * 2 ^ ?s) \<le> real ?M"
    by (simp add: power_add algebra_simps)
  then have "K * 2 ^ j * 2 ^ ?s \<le> ?M"
    by (simp only: of_nat_le_iff)
  then have "K * 2 ^ j \<le> ?M div 2 ^ ?s"
    by (simp add: less_eq_div_iff_mult_less_eq)
  also have "\<dots> \<le> nearest_even ?M ?s"
    by (rule nearest_even_lower)
  finally have "real (K * 2 ^ j) \<le> real (nearest_even ?M ?s)"
    by (rule of_nat_mono)
  then have "real K \<le> real (nearest_even ?M ?s) / 2 ^ j"
    by (simp add: field_simps)
  also have "\<dots> = dval (times64 d n)"
    by (simp add: dval_times64 p power_add)
  finally show ?thesis .
qed

subsection \<open>The index of a random number\<close>

lemma dval_nonneg: "0 \<le> dval d"
  by (simp add: dval_def)

text \<open>The greatest number below 1 is \<open>1 - 1 / 2 ^ 53\<close>.\<close>

lemma unit_double_le:
  assumes "unit_double d"
  shows "dval d \<le> 1 - 1 / 2 ^ 53"
proof (cases "0 \<le> snd d")
  case True
  then have "(1::real) \<le> 2 powi snd d"
    by (intro one_le_power_int) simp_all
  moreover from assms have "real (fst d) * 2 powi snd d < 1"
    by (simp add: unit_double_def dval_def)
  ultimately have "fst d = 0"
    by (cases "fst d") (auto simp: mult_less_cancel_right1 dest: less_le_trans)
  then show ?thesis
    by (simp add: dval_def)
next
  case False
  define j where "j = nat (- snd d)"
  define P where "P = (2::real) ^ j"
  define a where "a = real (fst d)"
  from False have e: "snd d = - int j"
    by (simp add: j_def)
  have v: "dval d = a / P"
    unfolding dval_def a_def P_def by (subst e) (simp add: powi_neg)
  have P: "0 < P"
    by (simp add: P_def)
  from assms have "a / P < 1"
    by (simp add: unit_double_def v)
  with P have "a < P"
    by simp
  then have "fst d < 2 ^ j"
    unfolding a_def P_def by (metis of_nat_less_iff of_nat_numeral of_nat_power)
  then have "fst d + 1 \<le> 2 ^ j"
    by simp
  then have "real (fst d + 1) \<le> real (2 ^ j)"
    by (rule of_nat_mono)
  then have a1: "a + 1 \<le> P"
    by (simp add: a_def P_def)
  from assms have "fst d + 1 \<le> 2 ^ 53"
    by (simp add: unit_double_def)
  then have "real (fst d + 1) \<le> real (2 ^ 53)"
    by (rule of_nat_mono)
  then have a2: "a + 1 \<le> 2 ^ 53"
    by (simp add: a_def)
  have "a * 2 ^ 53 \<le> (2 ^ 53 - 1) * P"
  proof (cases "P \<le> 2 ^ 53")
    case True
    with a1 show ?thesis by simp
  next
    case False
    with a2 show ?thesis by simp
  qed
  with P show ?thesis
    unfolding v by (simp add: field_simps)
qed

lemma pick_below:
  assumes "dval d * 36 \<le> real K - 36 / 2 ^ 53" and "K \<le> 36"
  shows "pick d < K"
proof -
  have "dval (times64 d 36) < real K"
    using times64_below [of d 36 K] assms by simp
  then have "\<lfloor>dval (times64 d 36)\<rfloor> < int K"
    by (simp add: floor_less_iff)
  moreover have "0 \<le> \<lfloor>dval (times64 d 36)\<rfloor>"
    by (simp add: dval_nonneg)
  ultimately show ?thesis
    by (simp add: pick_def Math_floor_def nat_less_iff)
qed

lemma pick_above:
  assumes "real K \<le> dval d * 36" and "dval d < 1"
  shows "K \<le> pick d"
proof -
  have "real K \<le> dval (times64 d 36)"
    using times64_above [of K d 36] assms by simp
  then have "int K \<le> \<lfloor>dval (times64 d 36)\<rfloor>"
    by (simp add: le_floor_iff)
  then show ?thesis
    by (simp add: pick_def Math_floor_def)
qed

lemma pick_less: "unit_double d \<Longrightarrow> pick d < 36"
  using pick_below [of d 36] unit_double_le [of d] by simp

lemma charAt_pick:
  assumes "unit_double d"
  shows "charAt chars (Math_floor (times64 d (length chars))) = [chars ! pick d]"
proof -
  have "0 \<le> Math_floor (times64 d 36)"
    by (simp add: Math_floor_def dval_nonneg)
  moreover from pick_less [OF assms] this have "Math_floor (times64 d 36) < 36"
    by (simp add: pick_def)
  ultimately show ?thesis
    by (simp add: charAt_def length_chars pick_def)
qed

lemma generateAdCode_eq:
  assumes "\<forall>i<11. unit_double (rnd i)"
  shows "generateAdCode rnd = ''AD'' @ map (\<lambda>j. chars ! pick (rnd j)) [0..<11]"
proof -
  have "map (\<lambda>j. charAt chars (Math_floor (times64 (rnd j) (length chars)))) [0..<11]
        = map (\<lambda>j. [chars ! pick (rnd j)]) [0..<11]"
    using assms by (intro map_cong refl charAt_pick) auto
  then have "concat (map (\<lambda>j. charAt chars (Math_floor (times64 (rnd j) (length chars)))) [0..<11])
        = map (\<lambda>j. chars ! pick (rnd j)) [0..<11]"
    by (simp only: concat_map_singleton)
  then show ?thesis
    unfolding generateAdCode_def generateAdCode_loop_unroll by simp
qed

lemma generateAdCode_nth:
  assumes "\<forall>i<11. unit_double (rnd i)" and "i < 11"
  shows "generateAdCode rnd ! (2 + i) = chars ! pick (rnd i)"
proof -
  have "generateAdCode rnd ! (2 + i) = map (\<lambda>j. chars ! pick (rnd j)) [0..<11] ! i"
    unfolding generateAdCode_eq [OF assms(1)] by (simp add: nth_append)
  also have "\<dots> = chars ! pick (rnd i)"
    using assms(2) by (simp del: upt_Suc)
  finally show ?thesis .
qed

lemmas adcode_defs = generateAdCode_def charAt_def chars_def Math_floor_def dval_def
  times64_def nearest_even_def excess.simps

lemma rounding_code: "generateAdCode rounding_random = ''ADZZZZZZZZZZZ''"
  by (simp add: rounding_random_def below_25_36_def adcode_defs)

lemma rounding_unit: "unit_double below_25_36"
  by (simp add: unit_double_def below_25_36_def dval_def)

text \<open>
  C6. Whenever \<^verbatim>\<open>Math.random()\<close> returns binary64 numbers of the interval from 0
  (included) to 1 (excluded), the generated code has 13 characters: the prefix \<^verbatim>\<open>AD\<close>,
  then 11 characters of \<^verbatim>\<open>[A-Z0-9]\<close>.
\<close>

theorem generateAdCode_format:
  assumes "\<forall>i<11. unit_double (rnd i)"
  shows "length (generateAdCode rnd) = 13 \<and>
         take 2 (generateAdCode rnd) = ''AD'' \<and>
         length (drop 2 (generateAdCode rnd)) = 11 \<and>
         (\<forall>c \<in> set (drop 2 (generateAdCode rnd)). upper_or_digit c)"
proof -
  have "\<forall>c \<in> set (map (\<lambda>j. chars ! pick (rnd j)) [0..<11]). upper_or_digit c"
  proof
    fix c assume "c \<in> set (map (\<lambda>j. chars ! pick (rnd j)) [0..<11])"
    then obtain j where j: "j < 11" and c: "c = chars ! pick (rnd j)"
      by auto
    from j assms have "pick (rnd j) < length chars"
      by (simp add: pick_less length_chars)
    then have "c \<in> set chars"
      unfolding c by (rule nth_mem)
    then show "upper_or_digit c"
      by (simp add: set_chars)
  qed
  then show ?thesis
    by (simp add: generateAdCode_eq [OF assms])
qed

theorem generateAdCode_format_witness:
  "unit_double below_25_36 \<and>
   generateAdCode rounding_random = ''ADZZZZZZZZZZZ'' \<and>
   length (generateAdCode rounding_random) = 13 \<and>
   take 2 (generateAdCode rounding_random) = ''AD'' \<and>
   length (drop 2 (generateAdCode rounding_random)) = 11 \<and>
   list_all upper_or_digit (drop 2 (generateAdCode rounding_random))"
proof -
  have h: "\<forall>i<11. unit_double (rounding_random i)"
    by (simp add: rounding_random_def rounding_unit)
  from generateAdCode_format [OF h] rounding_code rounding_unit show ?thesis
    unfolding list_all_iff by simp
qed

text \<open>
  C7, as the specification has it: the alphabet of the code has 37 symbols, and the draw
  from it is uniform, symbol number \<open>k\<close> for the random numbers from \<open>k / 36\<close> to
  \<open>(k + 1) / 36\<close>. The alphabet has 36 symbols; and for a number below \<open>25 / 36\<close> the
  binary64 product with 36 is rounded to 25, so that the code draws the symbol number 25,
  \<^verbatim>\<open>Z\<close>, where the symbol number 24, \<^verbatim>\<open>Y\<close>, is due.
\<close>

theorem alphabet_not_37:
  "card (set chars) \<noteq> 37 \<and>
   unit_double below_25_36 \<and> dval below_25_36 < 25 / 36 \<and>
   generateAdCode rounding_random ! 2 = chars ! 25 \<and> chars ! 25 \<noteq> chars ! 24"
proof -
  have "card (set chars) = 36"
    by (simp add: distinct_card distinct_chars length_chars)
  moreover have "dval below_25_36 < 25 / 36"
    by (simp add: below_25_36_def dval_def)
  moreover have "generateAdCode rounding_random ! 2 = chars ! 25"
    by (simp add: rounding_code chars_def)
  moreover have "chars ! 25 \<noteq> chars ! 24"
    by (simp add: chars_def)
  ultimately show ?thesis
    using rounding_unit by simp
qed

text \<open>
  C7, amended. The alphabet is the 36 characters of \<^verbatim>\<open>[A-Z0-9]\<close>, and the draw from it is
  uniform up to the rounding of the product: the character drawn for the random number
  \<open>r\<close> is the symbol number \<open>k\<close> whenever \<open>k / 36 \<le> r < (k + 1) / 36 - 1 / 2 ^ 53\<close>, and
  only if \<open>k / 36 - 1 / 2 ^ 53 < r < (k + 1) / 36\<close>.
\<close>

theorem generateAdCode_uniform:
  assumes "\<forall>i<11. unit_double (rnd i)" and "i < 11" and "k < 36"
  shows "card (set chars) = 36 \<and> set chars = {c. upper_or_digit c} \<and>
         (real k / 36 \<le> dval (rnd i) \<and> dval (rnd i) < (real k + 1) / 36 - 1 / 2 ^ 53
            \<longrightarrow> generateAdCode rnd ! (2 + i) = chars ! k) \<and>
         (generateAdCode rnd ! (2 + i) = chars ! k
            \<longrightarrow> real k / 36 - 1 / 2 ^ 53 < dval (rnd i) \<and> dval (rnd i) < (real k + 1) / 36)"
proof -
  let ?d = "rnd i"
  have u: "unit_double ?d"
    using assms by simp
  then have lt1: "dval ?d < 1"
    by (simp add: unit_double_def)
  have nth: "generateAdCode rnd ! (2 + i) = chars ! pick ?d"
    by (rule generateAdCode_nth [OF assms(1,2)])
  have eq: "chars ! pick ?d = chars ! k \<longleftrightarrow> pick ?d = k"
    using pick_less [OF u] \<open>k < 36\<close>
    by (simp add: nth_eq_iff_index_eq distinct_chars length_chars)
  have fwd: "generateAdCode rnd ! (2 + i) = chars ! k"
    if "real k / 36 \<le> dval ?d \<and> dval ?d < (real k + 1) / 36 - 1 / 2 ^ 53"
  proof -
    from that have "real k \<le> dval ?d * 36"
      by (simp add: field_simps)
    then have "k \<le> pick ?d"
      using lt1 by (rule pick_above)
    moreover from that have "dval ?d * 36 \<le> real (k + 1) - 36 / 2 ^ 53"
      by (simp add: field_simps)
    then have "pick ?d < k + 1"
      using \<open>k < 36\<close> by (intro pick_below) simp_all
    ultimately have "pick ?d = k"
      by simp
    then show ?thesis
      unfolding nth by simp
  qed
  have bwd: "real k / 36 - 1 / 2 ^ 53 < dval ?d \<and> dval ?d < (real k + 1) / 36"
    if "generateAdCode rnd ! (2 + i) = chars ! k"
  proof -
    from that have p: "pick ?d = k"
      unfolding nth eq .
    have "\<not> real (k + 1) \<le> dval ?d * 36"
    proof
      assume "real (k + 1) \<le> dval ?d * 36"
      then have "k + 1 \<le> pick ?d"
        using lt1 by (rule pick_above)
      with p show False by simp
    qed
    then have hi: "dval ?d < (real k + 1) / 36"
      by (simp add: field_simps not_le)
    have "\<not> dval ?d * 36 \<le> real k - 36 / 2 ^ 53"
    proof
      assume "dval ?d * 36 \<le> real k - 36 / 2 ^ 53"
      then have "pick ?d < k"
        using \<open>k < 36\<close> by (intro pick_below) simp_all
      with p show False by simp
    qed
    then have "real k / 36 - 1 / 2 ^ 53 < dval ?d"
      by (simp add: field_simps not_le)
    with hi show ?thesis by simp
  qed
  have "card (set chars) = 36"
    by (simp add: distinct_card distinct_chars length_chars)
  with set_chars fwd bwd show ?thesis
    by blast
qed

theorem generateAdCode_uniform_witness:
  "unit_double below_25_36 \<and> (0::nat) < 11 \<and> (25::nat) < 36 \<and>
   card (set chars) = 36 \<and>
   generateAdCode rounding_random ! 2 = chars ! 25 \<and>
   25 / 36 - 1 / 2 ^ 53 < dval below_25_36 \<and> dval below_25_36 < 26 / 36 \<and>
   chars ! 25 = CHR ''Z''"
proof -
  have h: "\<forall>i<11. unit_double (rounding_random i)"
    by (simp add: rounding_random_def rounding_unit)
  have b: "(0::nat) < 11" "(25::nat) < 36"
    by simp_all
  note u = generateAdCode_uniform [OF h b]
  from u have n: "card (set chars) = 36"
    by (rule conjunct1)
  have c: "generateAdCode rounding_random ! 2 = chars ! 25"
    by (simp add: rounding_code chars_def)
  from u have "generateAdCode rounding_random ! (2 + 0) = chars ! 25
      \<longrightarrow> real 25 / 36 - 1 / 2 ^ 53 < dval (rounding_random 0) \<and>
          dval (rounding_random 0) < (real 25 + 1) / 36"
    by (intro conjunct2 [OF conjunct2 [OF conjunct2 [OF u]]])
  with c have "25 / 36 - 1 / 2 ^ 53 < dval below_25_36 \<and> dval below_25_36 < 26 / 36"
    by (simp add: rounding_random_def)
  moreover have "chars ! 25 = CHR ''Z''"
    by (simp add: chars_def)
  ultimately show ?thesis
    using n c rounding_unit by simp
qed

section \<open>Splitting a reference\<close>

lemma split_not_Nil: "split c s \<noteq> []"
  by (induction s) (auto split: list.splits)

lemma split_Cons_sep: "split c (c # s) = [] # split c s"
  by simp

lemma split_Cons_other: "x \<noteq> c \<Longrightarrow> split c (x # s) = (x # hd (split c s)) # tl (split c s)"
  using split_not_Nil [of c s] by (cases "split c s") auto

lemma split_segment:
  "c \<notin> set p \<Longrightarrow> split c (p @ c # rest) = p # split c rest"
  by (induction p) (auto simp: split_Cons_other split_Cons_sep simp del: split.simps(2))

lemma join_split: "join c (split c s) = s"
proof (induction s)
  case Nil
  show ?case by simp
next
  case (Cons x s)
  obtain p ps where ps: "split c s = p # ps"
    using split_not_Nil [of c s] by (cases "split c s") auto
  with Cons show ?case
    by (cases ps) auto
qed

lemma split_segments_free: "p \<in> set (split c s) \<Longrightarrow> c \<notin> set p"
proof (induction s arbitrary: p)
  case Nil
  then show ?case by simp
next
  case (Cons x s)
  obtain q qs where qs: "split c s = q # qs"
    using split_not_Nil [of c s] by (cases "split c s") auto
  with Cons show ?case
    by (auto split: if_splits)
qed

lemma parseTransactionRef_Some_iff:
  "parseTransactionRef txRef = Some ident \<longleftrightarrow>
     (\<exists>rest. txRef = ''boost_'' @ ident @ ''_'' @ rest \<and> CHR ''_'' \<notin> set ident)"
proof
  assume a: "parseTransactionRef txRef = Some ident"
  define parts where "parts = split CHR ''_'' txRef"
  from a have len: "3 \<le> length parts" and p0: "parts ! 0 = ''boost''" and p1: "parts ! 1 = ident"
    by (auto simp: parseTransactionRef_def parts_def Let_def split: if_splits)
  from len obtain a0 a1 a2 as where parts: "parts = a0 # a1 # a2 # as"
    by (cases parts; cases "tl parts"; cases "tl (tl parts)") auto
  with p0 p1 have eq: "parts = ''boost'' # ident # a2 # as"
    by simp
  have "txRef = join CHR ''_'' parts"
    by (simp add: parts_def join_split)
  then have "txRef = ''boost_'' @ ident @ ''_'' @ join CHR ''_'' (a2 # as)"
    by (simp add: eq)
  moreover have "CHR ''_'' \<notin> set ident"
    by (rule split_segments_free [of _ _ txRef]) (simp add: parts_def [symmetric] eq)
  ultimately show "\<exists>rest. txRef = ''boost_'' @ ident @ ''_'' @ rest \<and> CHR ''_'' \<notin> set ident"
    by blast
next
  assume "\<exists>rest. txRef = ''boost_'' @ ident @ ''_'' @ rest \<and> CHR ''_'' \<notin> set ident"
  then obtain rest where t: "txRef = ''boost'' @ CHR ''_'' # ident @ CHR ''_'' # rest"
    and i: "CHR ''_'' \<notin> set ident"
    by auto
  have "split CHR ''_'' txRef = ''boost'' # split CHR ''_'' (ident @ CHR ''_'' # rest)"
    unfolding t by (rule split_segment) simp
  also have "\<dots> = ''boost'' # ident # split CHR ''_'' rest"
    by (simp only: split_segment [OF i])
  finally have s: "split CHR ''_'' txRef = ''boost'' # ident # split CHR ''_'' rest" .
  obtain q qs where "split CHR ''_'' rest = q # qs"
    using split_not_Nil [of "CHR ''_''" rest] by (cases "split CHR ''_'' rest") auto
  with s show "parseTransactionRef txRef = Some ident"
    by (simp add: parseTransactionRef_def)
qed

section \<open>The stages of the handler\<close>

lemma unchanged_refl: "unchanged w w"
  by (simp add: unchanged_def)

lemma unchanged_verify_call: "unchanged (w\<lparr>verify_calls := c\<rparr>) w' \<Longrightarrow> unchanged w w'"
  by (simp add: unchanged_def)

lemma packageData_amount:
  "packageData e v code = Inr doc \<Longrightarrow> \<exists>amount. get_path v [''data'', ''amount''] = Inr amount"
  unfolding packageData_def and_then_def Let_def
  by (cases "get_path v [''data'', ''amount'']") simp_all

lemma persist_result:
  assumes "persist e v ident w = (r, w')"
  shows "unchanged w w' \<or>
         (\<exists>doc amount. packageData e v (generateAdCode (Math_random e)) = Inr doc \<and>
            get_path v [''data'', ''amount''] = Inr amount \<and>
            w' = store (doc_path ident (packageId e)) doc w \<and>
            r = Inr (success e ident amount))"
proof (cases "packageData e v (generateAdCode (Math_random e))")
  case (Inl err)
  with assms show ?thesis
    by (auto simp: persist_def Let_def unchanged_def)
next
  case (Inr doc)
  from packageData_amount [OF Inr] obtain amount
    where amount: "get_path v [''data'', ''amount''] = Inr amount" ..
  show ?thesis
  proof (cases "firestore_refuses e (doc_path ident (packageId e)) doc")
    case None
    with assms Inr amount have "w' = store (doc_path ident (packageId e)) doc w"
      and "r = Inr (success e ident amount)"
      unfolding persist_def Let_def firestore_set_def store_def success_def by auto
    with Inr amount show ?thesis
      by blast
  next
    case (Some m)
    with assms Inr have "w' = w"
      unfolding persist_def Let_def firestore_set_def by auto
    then show ?thesis
      by (simp add: unchanged_refl)
  qed
qed

lemma extract_result:
  assumes "extract_and_persist e d v w = (r, w')"
  shows "unchanged w w' \<or>
         (\<exists>txRef ident doc amount. get_prop d ''tx_ref'' = Inr (JStr txRef) \<and>
            parseTransactionRef txRef = Some ident \<and> ident \<noteq> '''' \<and>
            packageData e v (generateAdCode (Math_random e)) = Inr doc \<and>
            get_path v [''data'', ''amount''] = Inr amount \<and>
            w' = store (doc_path ident (packageId e)) doc w \<and>
            r = Inr (success e ident amount))"
proof (cases "\<exists>txRef ident. get_prop d ''tx_ref'' = Inr (JStr txRef) \<and>
    parseTransactionRef txRef = Some ident \<and> ident \<noteq> ''''")
  case True
  then obtain txRef ident where t: "get_prop d ''tx_ref'' = Inr (JStr txRef)"
    "parseTransactionRef txRef = Some ident" "ident \<noteq> ''''"
    by blast
  with assms have "persist e v ident w = (r, w')"
    by (simp add: extract_and_persist_def)
  from persist_result [OF this] t show ?thesis
    by blast
next
  case False
  with assms have "w' = w"
    by (auto simp: extract_and_persist_def
        split: sum.splits jsval.splits option.splits if_splits)
  then show ?thesis
    by (simp add: unchanged_refl)
qed

lemma verify_passed:
  assumes "get_prop d ''id'' = Inr tid" "fetch_verify e tid = Inr v" "verification_successful v"
  shows "verify_and_persist e d w =
           extract_and_persist e d v (w\<lparr>verify_calls := verify_calls w @ [tid]\<rparr>)"
  using assms
  by (simp add: verify_and_persist_def verifyFlutterwavePayment_def verification_successful_def)

lemma verify_failed:
  assumes "get_prop d ''id'' = Inr tid" "fetch_verify e tid = Inr v"
    "get_prop v ''status'' = Inr vstatus"
    "vstatus \<noteq> JStr ''success'' \<or>
       (\<exists>s. get_path v [''data'', ''status''] = Inr s \<and> s \<noteq> JStr ''successful'')"
  shows "verify_and_persist e d w =
           (Inr \<lparr>res_status = 400,
                 res_json = JObj [(''error'', JStr ''Payment verification failed'')]\<rparr>,
            w\<lparr>verify_calls := verify_calls w @ [tid]\<rparr>)"
  using assms
  by (auto simp: verify_and_persist_def verifyFlutterwavePayment_def)

lemma verify_not_passed:
  assumes "verify_and_persist e d w = (r, w')"
    and "\<not> (\<exists>tid v. get_prop d ''id'' = Inr tid \<and> fetch_verify e tid = Inr v \<and>
            verification_successful v)"
  shows "unchanged w w'"
proof (cases "get_prop d ''id''")
  case (Inl err)
  with assms(1) show ?thesis
    by (auto simp: verify_and_persist_def unchanged_def)
next
  case (Inr tid)
  show ?thesis
  proof (cases "fetch_verify e tid")
    case (Inl err)
    with assms(1) Inr show ?thesis
      by (auto simp: verify_and_persist_def verifyFlutterwavePayment_def unchanged_def)
  next
    case v: (Inr v)
    with assms(2) Inr have "\<not> verification_successful v"
      by blast
    with assms(1) Inr v show ?thesis
      by (auto simp: verify_and_persist_def verifyFlutterwavePayment_def unchanged_def
          verification_successful_def split: sum.splits if_splits)
  qed
qed

lemma verify_result:
  assumes "verify_and_persist e d w = (r, w')"
  shows "unchanged w w' \<or>
         (\<exists>tid v txRef ident doc amount.
            get_prop d ''id'' = Inr tid \<and> fetch_verify e tid = Inr v \<and>
            verification_successful v \<and>
            get_prop d ''tx_ref'' = Inr (JStr txRef) \<and>
            parseTransactionRef txRef = Some ident \<and> ident \<noteq> '''' \<and>
            packageData e v (generateAdCode (Math_random e)) = Inr doc \<and>
            get_path v [''data'', ''amount''] = Inr amount \<and>
            w' = store (doc_path ident (packageId e)) doc
                   (w\<lparr>verify_calls := verify_calls w @ [tid]\<rparr>) \<and>
            r = Inr (success e ident amount))"
proof (cases "\<exists>tid v. get_prop d ''id'' = Inr tid \<and> fetch_verify e tid = Inr v \<and>
            verification_successful v")
  case True
  then obtain tid v where t: "get_prop d ''id'' = Inr tid" "fetch_verify e tid = Inr v"
    "verification_successful v"
    by blast
  from assms have "extract_and_persist e d v (w\<lparr>verify_calls := verify_calls w @ [tid]\<rparr>) = (r, w')"
    by (simp add: verify_passed [OF t])
  from extract_result [OF this] t show ?thesis
    by (blast dest: unchanged_verify_call)
next
  case False
  with assms have "unchanged w w'"
    by (rule verify_not_passed)
  then show ?thesis ..
qed

lemma filter_ignored:
  assumes "get_prop body ''event'' = Inr event" "get_prop body ''data'' = Inr d"
    "event \<noteq> JStr ''charge.completed'' \<or>
       (\<exists>st. get_prop d ''status'' = Inr st \<and> st \<noteq> JStr ''successful'')"
  shows "filter_and_process e body w =
           (Inr \<lparr>res_status = 200, res_json = JObj [(''message'', JStr ''Event ignored'')]\<rparr>, w)"
  using assms by (auto simp: filter_and_process_def)

lemma filter_passed:
  assumes "event_successful body" "get_prop body ''data'' = Inr d"
  shows "filter_and_process e body w = verify_and_persist e d w"
  using assms by (auto simp: filter_and_process_def event_successful_def split: sum.splits)

lemma filter_not_passed:
  assumes "filter_and_process e body w = (r, w')" "\<not> event_successful body"
  shows "w' = w"
  using assms
  by (auto simp: filter_and_process_def event_successful_def
      split: sum.splits if_splits)

lemma event_successful_data:
  assumes "event_successful body"
  obtains d where "get_prop body ''data'' = Inr d" "get_prop d ''status'' = Inr (JStr ''successful'')"
  using assms by (auto simp: event_successful_def split: sum.splits)

lemma handler_signed:
  assumes "req_method req = ''POST''" "signature_verified e req"
  shows "handler e req w = catch (filter_and_process e (req_body req) w)"
  using assms
  by (auto simp: handler_def handler_try_def signature_verified_def split: option.splits)

lemma handler_unsigned:
  assumes "handler e req w = (res, w')" "\<not> (req_method req = ''POST'' \<and> signature_verified e req)"
  shows "w' = w"
  using assms
  by (auto simp: handler_def handler_try_def signature_verified_def catch_def Let_def
      split: option.splits if_splits)

lemma catch_world: "catch (r, w) = (res, w') \<Longrightarrow> w' = w"
  by (auto simp: catch_def split: sum.splits)

lemma filter_result:
  assumes "filter_and_process e body w = (r, w')"
  shows "unchanged w w' \<or>
         (event_successful body \<and>
          (\<exists>d tid v txRef ident doc amount.
            get_prop body ''data'' = Inr d \<and>
            get_prop d ''id'' = Inr tid \<and> fetch_verify e tid = Inr v \<and>
            verification_successful v \<and>
            get_prop d ''tx_ref'' = Inr (JStr txRef) \<and>
            parseTransactionRef txRef = Some ident \<and> ident \<noteq> '''' \<and>
            packageData e v (generateAdCode (Math_random e)) = Inr doc \<and>
            get_path v [''data'', ''amount''] = Inr amount \<and>
            w' = store (doc_path ident (packageId e)) doc
                   (w\<lparr>verify_calls := verify_calls w @ [tid]\<rparr>) \<and>
            r = Inr (success e ident amount)))"
proof (cases "event_successful body")
  case True
  then obtain d where d: "get_prop body ''data'' = Inr d"
    by (rule event_successful_data)
  with assms True have "verify_and_persist e d w = (r, w')"
    by (simp add: filter_passed)
  from verify_result [OF this] True d show ?thesis
    by blast
next
  case False
  with assms have "w' = w"
    by (rule filter_not_passed)
  then show ?thesis
    by (simp add: unchanged_refl)
qed

lemma handler_result:
  assumes "handler e req w = (res, w')"
  shows "unchanged w w' \<or>
         (req_method req = ''POST'' \<and> signature_verified e req \<and>
          event_successful (req_body req) \<and>
          (\<exists>d tid v txRef ident doc amount.
            get_prop (req_body req) ''data'' = Inr d \<and>
            get_prop d ''id'' = Inr tid \<and> fetch_verify e tid = Inr v \<and>
            verification_successful v \<and>
            get_prop d ''tx_ref'' = Inr (JStr txRef) \<and>
            parseTransactionRef txRef = Some ident \<and> ident \<noteq> '''' \<and>
            packageData e v (generateAdCode (Math_random e)) = Inr doc \<and>
            get_path v [''data'', ''amount''] = Inr amount \<and>
            w' = store (doc_path ident (packageId e)) doc
                   (w\<lparr>verify_calls := verify_calls w @ [tid]\<rparr>) \<and>
            res = success e ident amount))"
proof (cases "req_method req = ''POST'' \<and> signature_verified e req")
  case True
  obtain r w1 where f: "filter_and_process e (req_body req) w = (r, w1)"
    by (cases "filter_and_process e (req_body req) w")
  with assms True have c: "catch (r, w1) = (res, w')"
    by (simp add: handler_signed)
  then have w1: "w1 = w'"
    by (auto dest: catch_world)
  from filter_result [OF f] show ?thesis
  proof
    assume "unchanged w w1"
    with w1 show ?thesis by simp
  next
    assume a: "event_successful (req_body req) \<and>
          (\<exists>d tid v txRef ident doc amount.
            get_prop (req_body req) ''data'' = Inr d \<and>
            get_prop d ''id'' = Inr tid \<and> fetch_verify e tid = Inr v \<and>
            verification_successful v \<and>
            get_prop d ''tx_ref'' = Inr (JStr txRef) \<and>
            parseTransactionRef txRef = Some ident \<and> ident \<noteq> '''' \<and>
            packageData e v (generateAdCode (Math_random e)) = Inr doc \<and>
            get_path v [''data'', ''amount''] = Inr amount \<and>
            w1 = store (doc_path ident (packageId e)) doc
                   (w\<lparr>verify_calls := verify_calls w @ [tid]\<rparr>) \<and>
            r = Inr (success e ident amount))"
    then obtain d tid v txRef ident doc amount where
      ev: "event_successful (req_body req)" and
      f: "get_prop (req_body req) ''data'' = Inr d"
         "get_prop d ''id'' = Inr tid" "fetch_verify e tid = Inr v"
         "verification_successful v"
         "get_prop d ''tx_ref'' = Inr (JStr txRef)"
         "parseTransactionRef txRef = Some ident" "ident \<noteq> ''''"
         "packageData e v (generateAdCode (Math_random e)) = Inr doc"
         "get_path v [''data'', ''amount''] = Inr amount" and
      w: "w1 = store (doc_path ident (packageId e)) doc
                   (w\<lparr>verify_calls := verify_calls w @ [tid]\<rparr>)" and
      r: "r = Inr (success e ident amount)"
      by blast
    from c r have "res = success e ident amount"
      by (simp add: catch_def)
    with True ev f w w1 show ?thesis
      by blast
  qed
next
  case False
  with assms have "w' = w"
    by (rule handler_unsigned)
  then show ?thesis
    by (simp add: unchanged_refl)
qed

lemma verification_of_eq:
  assumes "get_prop body ''data'' = Inr d" "get_prop d ''id'' = Inr tid" "fetch_verify e tid = Inr v"
  shows "verification_of e body = Some v"
  using assms by (simp add: verification_of_def)

lemma identifier_of_eq:
  assumes "get_prop body ''data'' = Inr d" "get_prop d ''tx_ref'' = Inr (JStr txRef)"
  shows "identifier_of body = parseTransactionRef txRef"
  using assms by (simp add: identifier_of_def)

lemma and_then_Inr: "and_then m f = Inr y \<longleftrightarrow> (\<exists>x. m = Inr x \<and> f x = Inr y)"
  by (cases m) (simp_all add: and_then_def)

lemma packageData_fields:
  assumes "packageData e v code = Inr doc"
  shows "payment_fields_from doc v"
    and "get_prop doc ''createdAt'' = Inr (JStr (toISOString e (new_Date e)))"
    and "get_prop doc ''expiresAt'' = Inr (JStr (toISOString e (new_Date e + 604800 * 1000)))"
proof -
  from assms obtain amount paymentId currency customerEmail customerName txRef flwRef paymentType
    where f: "get_path v [''data'', ''amount''] = Inr amount"
      "get_path v [''data'', ''id''] = Inr paymentId"
      "get_path v [''data'', ''currency''] = Inr currency"
      "get_path v [''data'', ''customer'', ''email''] = Inr customerEmail"
      "get_path v [''data'', ''customer'', ''name''] = Inr customerName"
      "get_path v [''data'', ''tx_ref''] = Inr txRef"
      "get_path v [''data'', ''flw_ref''] = Inr flwRef"
      "get_path v [''data'', ''payment_type''] = Inr paymentType"
    and doc: "doc = JObj
        [(''packageId'', JStr (packageId e)),
         (''packageName'', JStr ''Webhook Package''),
         (''packageType'', JStr ''webhook''),
         (''status'', JStr ''pending_upload''),
         (''createdAt'', JStr (toISOString e (new_Date e))),
         (''expiresAt'', JStr (toISOString e (new_Date e + (7 * 24 * 60 * 60 * 1000)))),
         (''totalAmountPaid'', amount),
         (''paymentId'', paymentId),
         (''adCode'', JStr code),
         (''currency'', currency),
         (''customerEmail'', customerEmail),
         (''customerName'', customerName),
         (''webhookProcessedAt'', JStr (toISOString e (new_Date e))),
         (''flutterwaveData'', JObj
            [(''txRef'', txRef), (''flwRef'', flwRef), (''paymentType'', paymentType)]),
         (''adTypes'', JArr [JStr ''image'']),
         (''placements'', JArr [JStr ''app_ads_footer'']),
         (''duration'', JNum 7),
         (''ads'', JObj
            [(''image'', JObj
               [(''contentType'', JNull),
                (''dataUrl'', JNull),
                (''websiteUrl'', JNull),
                (''editsUsed'', JNum 0),
                (''totalEdits'', JNum 1),
                (''views'', JNum 0),
                (''clicks'', JNum 0),
                (''uploaded'', JBool False)])]),
         (''totalViews'', JNum 0),
         (''totalClicks'', JNum 0),
         (''viewsPerDay'', JObj [])]"
    unfolding packageData_def Let_def and_then_Inr by blast
  show "payment_fields_from doc v"
    unfolding payment_fields_from_def f by (simp add: doc)
  show "get_prop doc ''createdAt'' = Inr (JStr (toISOString e (new_Date e)))"
    by (simp add: doc)
  show "get_prop doc ''expiresAt'' = Inr (JStr (toISOString e (new_Date e + 604800 * 1000)))"
    by (simp add: doc)
qed

lemma handler_reaches_parsing:
  assumes "req_method req = ''POST''" and "signature_verified e req"
    and "event_successful (req_body req)" and "reverified e (req_body req)"
  obtains d tid v where "get_prop (req_body req) ''data'' = Inr d"
    and "get_prop d ''id'' = Inr tid" and "fetch_verify e tid = Inr v"
    and "verification_successful v"
    and "\<And>w. handler e req w =
           catch (extract_and_persist e d v (w\<lparr>verify_calls := verify_calls w @ [tid]\<rparr>))"
proof -
  from assms(3) obtain d where d: "get_prop (req_body req) ''data'' = Inr d"
    by (rule event_successful_data)
  from assms(4) d obtain tid v where t: "get_prop d ''id'' = Inr tid"
    "fetch_verify e tid = Inr v" "verification_successful v"
    by (auto simp: reverified_def verification_of_def split: sum.splits option.splits)
  have h: "handler e req w =
      catch (extract_and_persist e d v (w\<lparr>verify_calls := verify_calls w @ [tid]\<rparr>))" for w
    by (simp add: handler_signed [OF assms(1,2)] filter_passed [OF assms(3) d]
        verify_passed [OF t])
  show thesis
    by (rule that [OF d t h])
qed

lemma extract_rejected:
  assumes "get_prop d ''tx_ref'' = Inr (JStr txRef)"
    and "parseTransactionRef txRef = None \<or> parseTransactionRef txRef = Some ''''"
  shows "extract_and_persist e d v w =
           (Inr \<lparr>res_status = 400,
                 res_json = JObj [(''error'', JStr ''Invalid transaction reference'')]\<rparr>, w)"
  using assms by (auto simp: extract_and_persist_def)

lemma handler_rejects_reference:
  assumes "req_method req = ''POST''" and "signature_verified e req"
    and "event_successful (req_body req)" and "reverified e (req_body req)"
    and "get_path (req_body req) [''data'', ''tx_ref''] = Inr (JStr txRef)"
    and "parseTransactionRef txRef = None \<or> parseTransactionRef txRef = Some ''''"
  shows "fst (handler e req w) =
           \<lparr>res_status = 400,
            res_json = JObj [(''error'', JStr ''Invalid transaction reference'')]\<rparr> \<and>
         unchanged w (snd (handler e req w))"
proof -
  from assms(1-4) obtain d tid v where d: "get_prop (req_body req) ''data'' = Inr d"
    and h: "\<And>w. handler e req w =
           catch (extract_and_persist e d v (w\<lparr>verify_calls := verify_calls w @ [tid]\<rparr>))"
    by (rule handler_reaches_parsing) blast
  from assms(5) d have "get_prop d ''tx_ref'' = Inr (JStr txRef)"
    by (simp split: sum.splits)
  from extract_rejected [OF this assms(6)] show ?thesis
    by (simp add: h catch_def unchanged_def)
qed

lemma verify_cong:
  assumes "get_prop d1 ''id'' = get_prop d2 ''id''"
    and "get_prop d1 ''tx_ref'' = get_prop d2 ''tx_ref''"
  shows "verify_and_persist e d1 w = verify_and_persist e d2 w"
  unfolding verify_and_persist_def extract_and_persist_def assms ..

lemma filter_cong:
  assumes "get_prop b1 ''event'' = get_prop b2 ''event''"
    and "get_prop b1 ''data'' = Inr d1" and "get_prop b2 ''data'' = Inr d2"
    and "get_prop d1 ''status'' = get_prop d2 ''status''"
    and "get_prop d1 ''id'' = get_prop d2 ''id''"
    and "get_prop d1 ''tx_ref'' = get_prop d2 ''tx_ref''"
  shows "filter_and_process e b1 w = filter_and_process e b2 w"
  by (cases "get_prop b2 ''event''"; cases "get_prop d2 ''status''")
    (simp_all add: filter_and_process_def assms(1-4) verify_cong [OF assms(5,6), of e w])

lemma handler_stored:
  assumes "handler e req w = (res, w')" and "\<not> unchanged w w'"
  obtains v ident doc amount where "verification_of e (req_body req) = Some v"
    and "packageData e v (generateAdCode (Math_random e)) = Inr doc"
    and "get_path v [''data'', ''amount''] = Inr amount"
    and "writes w' = writes w @ [(doc_path ident (packageId e), doc)]"
    and "db w' = (db w)(doc_path ident (packageId e) \<mapsto> doc)"
    and "res = success e ident amount"
proof -
  from handler_result [OF assms(1)] assms(2) obtain d tid v ident doc amount where
    d: "get_prop (req_body req) ''data'' = Inr d" and
    v: "get_prop d ''id'' = Inr tid" "fetch_verify e tid = Inr v" and
    p: "packageData e v (generateAdCode (Math_random e)) = Inr doc" and
    a: "get_path v [''data'', ''amount''] = Inr amount" and
    w: "w' = store (doc_path ident (packageId e)) doc
              (w\<lparr>verify_calls := verify_calls w @ [tid]\<rparr>)" and
    r: "res = success e ident amount"
    by blast
  from w have s: "writes w' = writes w @ [(doc_path ident (packageId e), doc)]"
    and b: "db w' = (db w)(doc_path ident (packageId e) \<mapsto> doc)"
    by (simp_all add: store_def)
  show thesis
    by (rule that [OF verification_of_eq [OF d v] p a s b r])
qed

text \<open>A read throws on \<^verbatim>\<open>null\<close> and on \<^verbatim>\<open>undefined\<close>, and on nothing else.\<close>

lemma get_prop_cases:
  obtains "v = JNull \<or> v = JUndefined" | x where "v \<noteq> JNull" "v \<noteq> JUndefined" "get_prop v k = Inr x"
  by (cases v) simp_all

lemma get_prop_throws: "v = JNull \<or> v = JUndefined \<Longrightarrow> \<exists>err. get_prop v k = Inl err"
  by auto

lemma catch_thrown:
  "res_status (fst (catch (Inl err, w'))) = 500 \<and> snd (catch (Inl err, w')) = w'"
  by (simp add: catch_def)

text \<open>
  The filter on an event that is not a successful charge: the reads of the destructuring
  and of \<^verbatim>\<open>data.status\<close> throw exactly when the body is \<^verbatim>\<open>null\<close>, or the event is
  \<^verbatim>\<open>charge.completed\<close> and its data \<^verbatim>\<open>null\<close> or absent; every other event is ignored.
\<close>

lemma filter_throws:
  assumes "body = JNull \<or>
     (get_prop body ''event'' = Inr (JStr ''charge.completed'') \<and>
      (get_prop body ''data'' = Inr JNull \<or> get_prop body ''data'' = Inr JUndefined))"
  shows "\<exists>err. filter_and_process e body w = (Inl err, w)"
  using assms by (auto simp: filter_and_process_def)

lemma filter_ignores:
  assumes "\<not> event_successful body" and "body \<noteq> JUndefined"
    and "\<not> (body = JNull \<or>
     (get_prop body ''event'' = Inr (JStr ''charge.completed'') \<and>
      (get_prop body ''data'' = Inr JNull \<or> get_prop body ''data'' = Inr JUndefined)))"
  shows "filter_and_process e body w =
           (Inr \<lparr>res_status = 200, res_json = JObj [(''message'', JStr ''Event ignored'')]\<rparr>, w)"
proof -
  from assms(2,3) obtain event where ev: "get_prop body ''event'' = Inr event"
    by (cases rule: get_prop_cases [where v = body and k = "''event''"]) auto
  from assms(2,3) obtain d where d: "get_prop body ''data'' = Inr d"
    by (cases rule: get_prop_cases [where v = body and k = "''data''"]) auto
  show ?thesis
  proof (cases "event = JStr ''charge.completed''")
    case False
    with ev d show ?thesis
      by (intro filter_ignored) auto
  next
    case True
    with assms(3) ev d have "d \<noteq> JNull" "d \<noteq> JUndefined"
      by auto
    then obtain st where st: "get_prop d ''status'' = Inr st"
      by (cases rule: get_prop_cases [where v = d and k = "''status''"]) auto
    with assms(1) ev d True have "st \<noteq> JStr ''successful''"
      by (auto simp: event_successful_def)
    with ev d st show ?thesis
      by (intro filter_ignored) auto
  qed
qed

text \<open>
  The verification stage on a response that is not a successful verification: the reads
  of \<^verbatim>\<open>verification.status\<close> and \<^verbatim>\<open>verification.data.status\<close> throw exactly when the
  response is \<^verbatim>\<open>null\<close> or \<^verbatim>\<open>undefined\<close>, or has the status \<^verbatim>\<open>success\<close> and data \<^verbatim>\<open>null\<close>
  or absent; every other response is rejected.
\<close>

lemma verify_throws:
  assumes "get_prop d ''id'' = Inr tid" "fetch_verify e tid = Inr v"
    and "v = JNull \<or> v = JUndefined \<or>
     (get_prop v ''status'' = Inr (JStr ''success'') \<and>
      (get_prop v ''data'' = Inr JNull \<or> get_prop v ''data'' = Inr JUndefined))"
  shows "\<exists>err. verify_and_persist e d w = (Inl err, w\<lparr>verify_calls := verify_calls w @ [tid]\<rparr>)"
  using assms by (auto simp: verify_and_persist_def verifyFlutterwavePayment_def)

lemma verify_rejects:
  assumes "get_prop d ''id'' = Inr tid" "fetch_verify e tid = Inr v"
    and "\<not> verification_successful v"
    and "\<not> (v = JNull \<or> v = JUndefined \<or>
     (get_prop v ''status'' = Inr (JStr ''success'') \<and>
      (get_prop v ''data'' = Inr JNull \<or> get_prop v ''data'' = Inr JUndefined)))"
  shows "verify_and_persist e d w =
           (Inr \<lparr>res_status = 400,
                 res_json = JObj [(''error'', JStr ''Payment verification failed'')]\<rparr>,
            w\<lparr>verify_calls := verify_calls w @ [tid]\<rparr>)"
proof -
  from assms(4) obtain vs where vs: "get_prop v ''status'' = Inr vs"
    by (cases rule: get_prop_cases [where v = v and k = "''status''"]) auto
  from assms(4) obtain vd where vd: "get_prop v ''data'' = Inr vd"
    by (cases rule: get_prop_cases [where v = v and k = "''data''"]) auto
  show ?thesis
  proof (cases "vs = JStr ''success''")
    case False
    with vs show ?thesis
      by (intro verify_failed [OF assms(1,2)]) auto
  next
    case True
    with assms(4) vs vd have "vd \<noteq> JNull" "vd \<noteq> JUndefined"
      by auto
    then obtain s where s: "get_prop vd ''status'' = Inr s"
      by (cases rule: get_prop_cases [where v = vd and k = "''status''"]) auto
    with assms(3) vs vd True have "s \<noteq> JStr ''successful''"
      by (auto simp: verification_successful_def)
    with vd s have "\<exists>s. get_path v [''data'', ''status''] = Inr s \<and> s \<noteq> JStr ''successful''"
      by simp
    then have "vs \<noteq> JStr ''success'' \<or>
        (\<exists>s. get_path v [''data'', ''status''] = Inr s \<and> s \<noteq> JStr ''successful'')" ..
    with vs show ?thesis
      by (intro verify_failed [OF assms(1,2)])
  qed
qed

section \<open>The worked example, evaluated\<close>

lemmas iso_defs = iso_string_def iso_year_def civil_year_def civil_month_def civil_day_def
  month_index_def day_of_year_def year_of_era_def day_of_era_def pad_def

lemma demo_code: "generateAdCode (Math_random demo_env) = ''ADSSSSSSSSSSS''"
  by (simp add: demo_env_def adcode_defs)

lemma demo_packageId: "packageId demo_env = ''ads_pkg_1699999999001''"
  by (simp add: demo_env_def packageId_def show_int_def digit_def)

lemma demo_createdAt: "toISOString demo_env (new_Date demo_env) = ''2023-11-14T22:13:19.000Z''"
  by (simp add: demo_env_def iso_defs digit_def)

lemma demo_expiresAt:
  "toISOString demo_env (new_Date demo_env + 7 * 24 * 60 * 60 * 1000) = ''2023-11-21T22:13:19.000Z''"
  by (simp add: demo_env_def iso_defs digit_def)

lemma demo_packageData:
  "packageData demo_env demo_verification ''ADSSSSSSSSSSS'' = Inr demo_document"
  unfolding packageData_def Let_def demo_packageId demo_createdAt demo_expiresAt
  by (simp add: demo_verification_def demo_payment_def demo_document_def and_then_def)

lemma demo_signed: "body \<noteq> JUndefined \<Longrightarrow> signature_verified demo_env (demo_request body)"
  by (simp add: signature_verified_def demo_env_def demo_request_def)

lemma demo_post: "req_method (demo_request body) = ''POST''"
  by (simp add: demo_request_def)

lemma demo_req_body: "req_body (demo_request body) = body"
  by (simp add: demo_request_def)

lemma happy_event: "event_successful happy_body"
  by (simp add: event_successful_def happy_body_def demo_body_def demo_payment_def)

lemma demo_parse: "parseTransactionRef ''boost_evt123_1699999999'' = Some ''evt123''"
  by (simp add: parseTransactionRef_def)

lemma demo_verified: "verification_successful demo_verification"
  by (simp add: verification_successful_def demo_verification_def demo_payment_def)

lemma demo_persist:
  "persist demo_env demo_verification ''evt123'' w =
     (Inr (success demo_env ''evt123'' (JNum 5000)), store demo_path demo_document w)"
proof -
  have "get_path demo_verification [''data'', ''amount''] = Inr (JNum 5000)"
    by (simp add: demo_verification_def demo_payment_def)
  moreover have "doc_path ''evt123'' (packageId demo_env) = demo_path"
    by (simp add: doc_path_def demo_packageId demo_path_def)
  moreover have "firestore_refuses demo_env demo_path demo_document = None"
    by (simp add: demo_env_def)
  ultimately show ?thesis
    unfolding persist_def Let_def demo_code demo_packageData firestore_set_def store_def
      success_def demo_packageId
    by simp
qed

lemma demo_run:
  "handler demo_env (demo_request happy_body) demo_world =
     (success demo_env ''evt123'' (JNum 5000),
      \<lparr>db = [demo_path \<mapsto> demo_document],
       writes = [(demo_path, demo_document)],
       verify_calls = [JNum 4242]\<rparr>)"
proof -
  let ?d = "demo_payment ''successful'' 5000 ''NGN'' ''boost_evt123_1699999999''"
  have b: "happy_body \<noteq> JUndefined"
    by (simp add: happy_body_def demo_body_def)
  have d: "get_prop happy_body ''data'' = Inr ?d"
    by (simp add: happy_body_def demo_body_def)
  have i: "get_prop ?d ''id'' = Inr (JNum 4242)"
    by (simp add: demo_payment_def)
  have f: "fetch_verify demo_env (JNum 4242) = Inr demo_verification"
    by (simp add: demo_env_def)
  have t: "get_prop ?d ''tx_ref'' = Inr (JStr ''boost_evt123_1699999999'')"
    by (simp add: demo_payment_def)
  have "handler demo_env (demo_request happy_body) demo_world =
          catch (filter_and_process demo_env happy_body demo_world)"
    by (simp add: handler_signed [OF demo_post demo_signed [OF b]] demo_req_body)
  also have "filter_and_process demo_env happy_body demo_world =
          verify_and_persist demo_env ?d demo_world"
    by (rule filter_passed [OF happy_event d])
  also have "\<dots> = extract_and_persist demo_env ?d demo_verification
          (demo_world\<lparr>verify_calls := verify_calls demo_world @ [JNum 4242]\<rparr>)"
    by (rule verify_passed [OF i f demo_verified])
  also have "\<dots> = persist demo_env demo_verification ''evt123''
          (demo_world\<lparr>verify_calls := verify_calls demo_world @ [JNum 4242]\<rparr>)"
    by (simp add: extract_and_persist_def t demo_parse)
  finally show ?thesis
    by (simp add: demo_persist catch_def store_def demo_world_def)
qed

lemma happy_reverified: "reverified demo_env (demo_body event (demo_payment status a c r))"
  by (simp add: reverified_def verification_of_def demo_body_def demo_payment_def demo_env_def
      demo_verified)

lemma demo_event:
  "event_successful (demo_body ''charge.completed'' (demo_payment ''successful'' a c r))"
  by (simp add: event_successful_def demo_body_def demo_payment_def)

lemma demo_tx_ref:
  "get_path (demo_body event (demo_payment status a c r)) [''data'', ''tx_ref''] = Inr (JStr r)"
  by (simp add: demo_body_def demo_payment_def)

lemma demo_body_defined: "demo_body event payment \<noteq> JUndefined"
  by (simp add: demo_body_def)

section \<open>The claims about the handler\<close>

text \<open>
  C1. The handler changes the database (stores a document) only if the signature was
  verified, the event is a successful charge, the provider's verification of it is
  successful, and the reference yields a non-empty identifier. So whenever one of the
  four fails, the database after the call is the database before it.
\<close>

theorem handler_writes_only_if:
  assumes "\<not> unchanged w (snd (handler e req w))"
  shows "signature_verified e req \<and> event_successful (req_body req) \<and>
         reverified e (req_body req) \<and> identifier_recovered (req_body req)"
proof -
  obtain res w' where h: "handler e req w = (res, w')"
    by (cases "handler e req w")
  with assms have "\<not> unchanged w w'"
    by simp
  with handler_result [OF h] obtain d tid v txRef ident where
    s: "signature_verified e req" "event_successful (req_body req)" and
    d: "get_prop (req_body req) ''data'' = Inr d" and
    v: "get_prop d ''id'' = Inr tid" "fetch_verify e tid = Inr v" "verification_successful v" and
    t: "get_prop d ''tx_ref'' = Inr (JStr txRef)" "parseTransactionRef txRef = Some ident"
       "ident \<noteq> ''''"
    by blast
  have "reverified e (req_body req)"
    using verification_of_eq [OF d v(1,2)] v(3) by (simp add: reverified_def)
  moreover have "identifier_recovered (req_body req)"
    using identifier_of_eq [OF d t(1)] t(2,3) by (simp add: identifier_recovered_def)
  ultimately show ?thesis
    using s by simp
qed

text \<open>
  C1, at the worked example: the write happens, and the four conditions hold.
\<close>

theorem handler_writes_only_if_witness:
  "\<not> unchanged demo_world (snd (handler demo_env (demo_request happy_body) demo_world)) \<and>
   signature_verified demo_env (demo_request happy_body) \<and>
   event_successful (req_body (demo_request happy_body)) \<and>
   reverified demo_env (req_body (demo_request happy_body)) \<and>
   identifier_recovered (req_body (demo_request happy_body))"
proof -
  have "writes (snd (handler demo_env (demo_request happy_body) demo_world)) =
      [(demo_path, demo_document)]"
    by (simp add: demo_run)
  moreover have "writes demo_world = []"
    by (simp add: demo_world_def)
  ultimately have "\<not> unchanged demo_world
      (snd (handler demo_env (demo_request happy_body) demo_world))"
    by (simp add: unchanged_def)
  from this handler_writes_only_if [OF this] show ?thesis
    by (intro conjI) simp_all
qed

text \<open>
  C2. A POST request whose header does not carry the hexadecimal HMAC-SHA256 of the
  serialised body under the configured secret is answered with 401, whatever the body
  holds; the world is as before: no verification call, no write.
\<close>

theorem handler_rejects_bad_signature:
  assumes "req_method req = ''POST''"
    and "FLUTTERWAVE_WEBHOOK_HASH e = Some S"
    and "req_body req = B" and "B \<noteq> JUndefined"
    and "req_headers req ''verif-hash'' \<noteq> Some (hmac_sha256_hex e S (JSON_stringify e B))"
  shows "handler e req w =
           (\<lparr>res_status = 401, res_json = JObj [(''error'', JStr ''Invalid signature'')]\<rparr>, w)"
  using assms by (auto simp: handler_def handler_try_def catch_def)

theorem handler_rejects_bad_signature_witness:
  "handler demo_env ((demo_request happy_body)\<lparr>req_headers := [''verif-hash'' \<mapsto> ''forged'']\<rparr>)
     demo_world =
   (\<lparr>res_status = 401, res_json = JObj [(''error'', JStr ''Invalid signature'')]\<rparr>, demo_world)"
proof -
  let ?req = "(demo_request happy_body)\<lparr>req_headers := [''verif-hash'' \<mapsto> ''forged'']\<rparr>"
  have "req_method ?req = ''POST''"
    by (simp add: demo_request_def)
  moreover have "FLUTTERWAVE_WEBHOOK_HASH demo_env = Some ''demo-secret''"
    by (simp add: demo_env_def)
  moreover have "req_body ?req = happy_body"
    by (simp add: demo_request_def)
  moreover have "happy_body \<noteq> JUndefined"
    by (simp add: happy_body_def demo_body_def)
  moreover have "req_headers ?req ''verif-hash'' \<noteq>
      Some (hmac_sha256_hex demo_env ''demo-secret'' (JSON_stringify demo_env happy_body))"
    by (simp add: demo_env_def)
  ultimately show ?thesis
    by (rule handler_rejects_bad_signature)
qed

text \<open>
  C3, as the specification has it: every signed request whose event is not
  \<^verbatim>\<open>charge.completed\<close>, or whose \<^verbatim>\<open>data.status\<close> is not \<^verbatim>\<open>successful\<close>, is answered with
  200. A signed \<^verbatim>\<open>charge.completed\<close> event that carries no data has no \<^verbatim>\<open>data.status\<close>
  that is \<^verbatim>\<open>successful\<close>; the read of it throws, and the answer is 500.
\<close>

theorem event_without_data_not_ignored:
  "req_method (demo_request event_without_data) = ''POST'' \<and>
   signature_verified demo_env (demo_request event_without_data) \<and>
   get_prop event_without_data ''event'' = Inr (JStr ''charge.completed'') \<and>
   get_prop event_without_data ''data'' = Inr JUndefined \<and>
   get_path event_without_data [''data'', ''status''] \<noteq> Inr (JStr ''successful'') \<and>
   res_status (fst (handler demo_env (demo_request event_without_data) demo_world)) = 500 \<and>
   res_status (fst (handler demo_env (demo_request event_without_data) demo_world)) \<noteq> 200"
proof -
  have b: "event_without_data \<noteq> JUndefined"
    by (simp add: event_without_data_def)
  have ev: "get_prop event_without_data ''event'' = Inr (JStr ''charge.completed'')"
    by (simp add: event_without_data_def)
  have d: "get_prop event_without_data ''data'' = Inr JUndefined"
    by (simp add: event_without_data_def)
  have p: "get_path event_without_data [''data'', ''status''] \<noteq> Inr (JStr ''successful'')"
    by (simp add: event_without_data_def)
  from ev d obtain err where
    "filter_and_process demo_env event_without_data demo_world = (Inl err, demo_world)"
    using filter_throws [of event_without_data demo_env demo_world] by auto
  then have "handler demo_env (demo_request event_without_data) demo_world
      = catch (Inl err, demo_world)"
    by (simp add: handler_signed [OF demo_post demo_signed [OF b]] demo_req_body)
  then have "res_status (fst (handler demo_env (demo_request event_without_data) demo_world)) = 500"
    by (simp add: catch_thrown)
  with demo_post demo_signed [OF b] ev d p show ?thesis
    by simp
qed

text \<open>
  C3, amended. A signed POST request whose event is not \<^verbatim>\<open>charge.completed\<close>, or whose
  \<^verbatim>\<open>data.status\<close> is not \<^verbatim>\<open>successful\<close>, leaves the world as it was. The response is
  500 when the body is \<^verbatim>\<open>null\<close>, and when the event is \<^verbatim>\<open>charge.completed\<close> and its data
  are \<^verbatim>\<open>null\<close> or absent; in every other case it is 200 with the message
  \<^verbatim>\<open>Event ignored\<close>.
\<close>

theorem handler_ignores_other_events:
  assumes "req_method req = ''POST''" and "signature_verified e req"
    and "\<not> event_successful (req_body req)"
  shows "snd (handler e req w) = w \<and>
         (if req_body req = JNull \<or>
             (get_prop (req_body req) ''event'' = Inr (JStr ''charge.completed'') \<and>
              (get_prop (req_body req) ''data'' = Inr JNull \<or>
               get_prop (req_body req) ''data'' = Inr JUndefined))
          then res_status (fst (handler e req w)) = 500
          else fst (handler e req w) =
                 \<lparr>res_status = 200, res_json = JObj [(''message'', JStr ''Event ignored'')]\<rparr>)"
proof (cases "req_body req = JNull \<or>
             (get_prop (req_body req) ''event'' = Inr (JStr ''charge.completed'') \<and>
              (get_prop (req_body req) ''data'' = Inr JNull \<or>
               get_prop (req_body req) ''data'' = Inr JUndefined))")
  case True
  from filter_throws [OF True] obtain err where
    "filter_and_process e (req_body req) w = (Inl err, w)" ..
  then have "handler e req w = catch (Inl err, w)"
    by (simp add: handler_signed [OF assms(1,2)])
  with True show ?thesis
    by (simp only: catch_thrown if_True simp_thms)
next
  case False
  from assms(2) have "req_body req \<noteq> JUndefined"
    by (auto simp: signature_verified_def split: option.splits)
  with assms(3) have "filter_and_process e (req_body req) w =
      (Inr \<lparr>res_status = 200, res_json = JObj [(''message'', JStr ''Event ignored'')]\<rparr>, w)"
    using False by (rule filter_ignores)
  then have "handler e req w =
      (\<lparr>res_status = 200, res_json = JObj [(''message'', JStr ''Event ignored'')]\<rparr>, w)"
    by (simp add: handler_signed [OF assms(1,2)] catch_def)
  with False show ?thesis
    by (simp only: if_False fst_conv snd_conv simp_thms)
qed

theorem handler_ignores_other_events_witness:
  "handler demo_env
     (demo_request (demo_body ''charge.completed''
        (demo_payment ''failed'' 5000 ''NGN'' ''boost_evt123_1699999999''))) demo_world =
   (\<lparr>res_status = 200, res_json = JObj [(''message'', JStr ''Event ignored'')]\<rparr>, demo_world) \<and>
   handler demo_env
     (demo_request (demo_body ''transfer.completed''
        (demo_payment ''successful'' 5000 ''NGN'' ''boost_evt123_1699999999''))) demo_world =
   (\<lparr>res_status = 200, res_json = JObj [(''message'', JStr ''Event ignored'')]\<rparr>, demo_world) \<and>
   res_status (fst (handler demo_env (demo_request JNull) demo_world)) = 500 \<and>
   snd (handler demo_env (demo_request JNull) demo_world) = demo_world"
proof (intro conjI)
  let ?d = "demo_payment ''failed'' 5000 ''NGN'' ''boost_evt123_1699999999''"
  let ?b = "demo_body ''charge.completed'' ?d"
  have s: "signature_verified demo_env (demo_request ?b)"
    by (rule demo_signed [OF demo_body_defined])
  have n: "\<not> event_successful (req_body (demo_request ?b))"
    by (simp add: demo_req_body event_successful_def demo_body_def demo_payment_def)
  have "\<not> (req_body (demo_request ?b) = JNull \<or>
      (get_prop (req_body (demo_request ?b)) ''event'' = Inr (JStr ''charge.completed'') \<and>
       (get_prop (req_body (demo_request ?b)) ''data'' = Inr JNull \<or>
        get_prop (req_body (demo_request ?b)) ''data'' = Inr JUndefined)))"
    by (simp add: demo_req_body demo_body_def demo_payment_def)
  with handler_ignores_other_events [OF demo_post s n, of demo_world]
  have "snd (handler demo_env (demo_request ?b) demo_world) = demo_world \<and>
      fst (handler demo_env (demo_request ?b) demo_world) =
        \<lparr>res_status = 200, res_json = JObj [(''message'', JStr ''Event ignored'')]\<rparr>"
    by (simp only: if_False)
  then show "handler demo_env (demo_request ?b) demo_world =
      (\<lparr>res_status = 200, res_json = JObj [(''message'', JStr ''Event ignored'')]\<rparr>, demo_world)"
    by (simp add: prod_eq_iff)
next
  let ?d = "demo_payment ''successful'' 5000 ''NGN'' ''boost_evt123_1699999999''"
  let ?b = "demo_body ''transfer.completed'' ?d"
  have s: "signature_verified demo_env (demo_request ?b)"
    by (rule demo_signed [OF demo_body_defined])
  have n: "\<not> event_successful (req_body (demo_request ?b))"
    by (simp add: demo_req_body event_successful_def demo_body_def)
  have "\<not> (req_body (demo_request ?b) = JNull \<or>
      (get_prop (req_body (demo_request ?b)) ''event'' = Inr (JStr ''charge.completed'') \<and>
       (get_prop (req_body (demo_request ?b)) ''data'' = Inr JNull \<or>
        get_prop (req_body (demo_request ?b)) ''data'' = Inr JUndefined)))"
    by (simp add: demo_req_body demo_body_def)
  with handler_ignores_other_events [OF demo_post s n, of demo_world]
  have "snd (handler demo_env (demo_request ?b) demo_world) = demo_world \<and>
      fst (handler demo_env (demo_request ?b) demo_world) =
        \<lparr>res_status = 200, res_json = JObj [(''message'', JStr ''Event ignored'')]\<rparr>"
    by (simp only: if_False)
  then show "handler demo_env (demo_request ?b) demo_world =
      (\<lparr>res_status = 200, res_json = JObj [(''message'', JStr ''Event ignored'')]\<rparr>, demo_world)"
    by (simp add: prod_eq_iff)
next
  have s: "signature_verified demo_env (demo_request JNull)"
    by (rule demo_signed) simp
  have n: "\<not> event_successful (req_body (demo_request JNull))"
    by (simp add: demo_req_body event_successful_def)
  have t: "req_body (demo_request JNull) = JNull"
    by (rule demo_req_body)
  from handler_ignores_other_events [OF demo_post s n, of demo_world]
  show "res_status (fst (handler demo_env (demo_request JNull) demo_world)) = 500"
    by (simp add: t)
  from handler_ignores_other_events [OF demo_post s n, of demo_world]
  show "snd (handler demo_env (demo_request JNull) demo_world) = demo_world"
    by (rule conjunct1)
qed

text \<open>
  C4, as the specification has it: every verification response whose status is not
  \<^verbatim>\<open>success\<close>, or whose \<^verbatim>\<open>data.status\<close> is not \<^verbatim>\<open>successful\<close>, is answered with 400. A
  response with the status \<^verbatim>\<open>success\<close> and no data has no \<^verbatim>\<open>data.status\<close> that is
  \<^verbatim>\<open>successful\<close>; the read of it throws, and the answer is 500.
\<close>

theorem verification_without_data_not_rejected:
  "req_method (demo_request happy_body) = ''POST'' \<and>
   signature_verified demo_env_without_data (demo_request happy_body) \<and>
   event_successful happy_body \<and>
   get_path happy_body [''data'', ''id''] = Inr (JNum 4242) \<and>
   fetch_verify demo_env_without_data (JNum 4242) = Inr verification_without_data \<and>
   get_prop verification_without_data ''status'' = Inr (JStr ''success'') \<and>
   get_prop verification_without_data ''data'' = Inr JUndefined \<and>
   get_path verification_without_data [''data'', ''status''] \<noteq> Inr (JStr ''successful'') \<and>
   res_status (fst (handler demo_env_without_data (demo_request happy_body) demo_world)) = 500 \<and>
   res_status (fst (handler demo_env_without_data (demo_request happy_body) demo_world)) \<noteq> 400"
proof -
  let ?d = "demo_payment ''successful'' 5000 ''NGN'' ''boost_evt123_1699999999''"
  have s: "signature_verified demo_env_without_data (demo_request happy_body)"
    by (simp add: signature_verified_def demo_env_without_data_def demo_env_def
        demo_request_def happy_body_def demo_body_def)
  have d: "get_prop happy_body ''data'' = Inr ?d"
    by (simp add: happy_body_def demo_body_def)
  have i: "get_prop ?d ''id'' = Inr (JNum 4242)"
    by (simp add: demo_payment_def)
  have p: "get_path happy_body [''data'', ''id''] = Inr (JNum 4242)"
    by (simp add: d i)
  have f: "fetch_verify demo_env_without_data (JNum 4242) = Inr verification_without_data"
    by (simp add: demo_env_without_data_def)
  have vs: "get_prop verification_without_data ''status'' = Inr (JStr ''success'')"
    by (simp add: verification_without_data_def)
  have vd: "get_prop verification_without_data ''data'' = Inr JUndefined"
    by (simp add: verification_without_data_def)
  have vp: "get_path verification_without_data [''data'', ''status''] \<noteq> Inr (JStr ''successful'')"
    by (simp add: vd)
  from vs vd obtain err where "verify_and_persist demo_env_without_data ?d demo_world =
      (Inl err, demo_world\<lparr>verify_calls := verify_calls demo_world @ [JNum 4242]\<rparr>)"
    using verify_throws [OF i f, of demo_world] by auto
  then have "handler demo_env_without_data (demo_request happy_body) demo_world =
      catch (Inl err, demo_world\<lparr>verify_calls := verify_calls demo_world @ [JNum 4242]\<rparr>)"
    by (simp add: handler_signed [OF demo_post s] demo_req_body filter_passed [OF happy_event d])
  then have "res_status (fst (handler demo_env_without_data (demo_request happy_body) demo_world))
      = 500"
    by (simp add: catch_thrown)
  with demo_post s happy_event p f vs vd vp show ?thesis
    by simp
qed

text \<open>
  C4, amended. When the provider's answer for a signed, successful charge event has a
  status other than \<^verbatim>\<open>success\<close>, or a \<^verbatim>\<open>data.status\<close> other than \<^verbatim>\<open>successful\<close>, nothing is
  written: the world differs from the one before by the record of the verification call
  only. The response is 500 when the answer is \<^verbatim>\<open>null\<close> or \<^verbatim>\<open>undefined\<close>, and when its
  status is \<^verbatim>\<open>success\<close> and its data are \<^verbatim>\<open>null\<close> or absent; in every other case it is
  400 with the error \<^verbatim>\<open>Payment verification failed\<close>.
\<close>

theorem handler_rejects_failed_verification:
  assumes "req_method req = ''POST''" and "signature_verified e req"
    and "event_successful (req_body req)"
    and "get_path (req_body req) [''data'', ''id''] = Inr transactionId"
    and "fetch_verify e transactionId = Inr verification"
    and "\<not> verification_successful verification"
  shows "snd (handler e req w) = w\<lparr>verify_calls := verify_calls w @ [transactionId]\<rparr> \<and>
         unchanged w (snd (handler e req w)) \<and>
         (if verification = JNull \<or> verification = JUndefined \<or>
             (get_prop verification ''status'' = Inr (JStr ''success'') \<and>
              (get_prop verification ''data'' = Inr JNull \<or>
               get_prop verification ''data'' = Inr JUndefined))
          then res_status (fst (handler e req w)) = 500
          else fst (handler e req w) =
                 \<lparr>res_status = 400,
                  res_json = JObj [(''error'', JStr ''Payment verification failed'')]\<rparr>)"
proof -
  from assms(3) obtain d where d: "get_prop (req_body req) ''data'' = Inr d"
    by (rule event_successful_data)
  with assms(4) have i: "get_prop d ''id'' = Inr transactionId"
    by (simp split: sum.splits)
  have h: "handler e req w = catch (verify_and_persist e d w)"
    by (simp add: handler_signed [OF assms(1,2)] filter_passed [OF assms(3) d])
  show ?thesis
  proof (cases "verification = JNull \<or> verification = JUndefined \<or>
             (get_prop verification ''status'' = Inr (JStr ''success'') \<and>
              (get_prop verification ''data'' = Inr JNull \<or>
               get_prop verification ''data'' = Inr JUndefined))")
    case True
    from verify_throws [OF i assms(5) True] obtain err where
      "verify_and_persist e d w =
         (Inl err, w\<lparr>verify_calls := verify_calls w @ [transactionId]\<rparr>)" ..
    then have "handler e req w =
        catch (Inl err, w\<lparr>verify_calls := verify_calls w @ [transactionId]\<rparr>)"
      by (simp only: h)
    with True show ?thesis
      by (simp only: catch_thrown if_True simp_thms) (simp add: unchanged_def)
  next
    case False
    have "handler e req w =
        (\<lparr>res_status = 400, res_json = JObj [(''error'', JStr ''Payment verification failed'')]\<rparr>,
         w\<lparr>verify_calls := verify_calls w @ [transactionId]\<rparr>)"
      unfolding h verify_rejects [OF i assms(5,6) False] by (simp add: catch_def)
    with False show ?thesis
      by (simp only: if_False fst_conv snd_conv simp_thms) (simp add: unchanged_def)
  qed
qed

theorem handler_rejects_failed_verification_witness:
  "handler
     (demo_env\<lparr>fetch_verify := \<lambda>transactionId.
        Inr (JObj [(''status'', JStr ''error''), (''message'', JStr ''No transaction was found''),
                   (''data'', JNull)])\<rparr>)
     (demo_request happy_body) demo_world =
   (\<lparr>res_status = 400, res_json = JObj [(''error'', JStr ''Payment verification failed'')]\<rparr>,
    demo_world\<lparr>verify_calls := [JNum 4242]\<rparr>) \<and>
   handler
     (demo_env\<lparr>fetch_verify := \<lambda>transactionId.
        Inr (JObj [(''status'', JStr ''success''),
                   (''data'', JObj [(''id'', JNum 4242), (''status'', JStr ''failed'')])])\<rparr>)
     (demo_request happy_body) demo_world =
   (\<lparr>res_status = 400, res_json = JObj [(''error'', JStr ''Payment verification failed'')]\<rparr>,
    demo_world\<lparr>verify_calls := [JNum 4242]\<rparr>) \<and>
   res_status (fst (handler (demo_env\<lparr>fetch_verify := \<lambda>transactionId. Inr JNull\<rparr>)
     (demo_request happy_body) demo_world)) = 500 \<and>
   snd (handler (demo_env\<lparr>fetch_verify := \<lambda>transactionId. Inr JNull\<rparr>)
     (demo_request happy_body) demo_world) = demo_world\<lparr>verify_calls := [JNum 4242]\<rparr>"
proof (intro conjI)
  let ?v = "JObj [(''status'', JStr ''error''), (''message'', JStr ''No transaction was found''),
                   (''data'', JNull)]"
  let ?e = "demo_env\<lparr>fetch_verify := \<lambda>transactionId. Inr ?v\<rparr>"
  have s: "signature_verified ?e (demo_request happy_body)"
    by (simp add: signature_verified_def demo_env_def demo_request_def happy_body_def demo_body_def)
  have ev: "event_successful (req_body (demo_request happy_body))"
    by (simp add: demo_req_body happy_event)
  have p: "get_path (req_body (demo_request happy_body)) [''data'', ''id''] = Inr (JNum 4242)"
    by (simp add: demo_req_body happy_body_def demo_body_def demo_payment_def)
  have f: "fetch_verify ?e (JNum 4242) = Inr ?v"
    by simp
  have n: "\<not> verification_successful ?v"
    by (simp add: verification_successful_def)
  have "\<not> (?v = JNull \<or> ?v = JUndefined \<or>
      (get_prop ?v ''status'' = Inr (JStr ''success'') \<and>
       (get_prop ?v ''data'' = Inr JNull \<or> get_prop ?v ''data'' = Inr JUndefined)))"
    by simp
  with handler_rejects_failed_verification [OF demo_post s ev p f n, of demo_world]
  have "snd (handler ?e (demo_request happy_body) demo_world) =
        demo_world\<lparr>verify_calls := verify_calls demo_world @ [JNum 4242]\<rparr> \<and>
      fst (handler ?e (demo_request happy_body) demo_world) =
        \<lparr>res_status = 400, res_json = JObj [(''error'', JStr ''Payment verification failed'')]\<rparr>"
    by (simp only: if_False)
  then show "handler ?e (demo_request happy_body) demo_world =
      (\<lparr>res_status = 400, res_json = JObj [(''error'', JStr ''Payment verification failed'')]\<rparr>,
       demo_world\<lparr>verify_calls := [JNum 4242]\<rparr>)"
    by (simp add: prod_eq_iff demo_world_def)
next
  let ?v = "JObj [(''status'', JStr ''success''),
                   (''data'', JObj [(''id'', JNum 4242), (''status'', JStr ''failed'')])]"
  let ?e = "demo_env\<lparr>fetch_verify := \<lambda>transactionId. Inr ?v\<rparr>"
  have s: "signature_verified ?e (demo_request happy_body)"
    by (simp add: signature_verified_def demo_env_def demo_request_def happy_body_def demo_body_def)
  have ev: "event_successful (req_body (demo_request happy_body))"
    by (simp add: demo_req_body happy_event)
  have p: "get_path (req_body (demo_request happy_body)) [''data'', ''id''] = Inr (JNum 4242)"
    by (simp add: demo_req_body happy_body_def demo_body_def demo_payment_def)
  have f: "fetch_verify ?e (JNum 4242) = Inr ?v"
    by simp
  have n: "\<not> verification_successful ?v"
    by (simp add: verification_successful_def)
  have "\<not> (?v = JNull \<or> ?v = JUndefined \<or>
      (get_prop ?v ''status'' = Inr (JStr ''success'') \<and>
       (get_prop ?v ''data'' = Inr JNull \<or> get_prop ?v ''data'' = Inr JUndefined)))"
    by simp
  with handler_rejects_failed_verification [OF demo_post s ev p f n, of demo_world]
  have "snd (handler ?e (demo_request happy_body) demo_world) =
        demo_world\<lparr>verify_calls := verify_calls demo_world @ [JNum 4242]\<rparr> \<and>
      fst (handler ?e (demo_request happy_body) demo_world) =
        \<lparr>res_status = 400, res_json = JObj [(''error'', JStr ''Payment verification failed'')]\<rparr>"
    by (simp only: if_False)
  then show "handler ?e (demo_request happy_body) demo_world =
      (\<lparr>res_status = 400, res_json = JObj [(''error'', JStr ''Payment verification failed'')]\<rparr>,
       demo_world\<lparr>verify_calls := [JNum 4242]\<rparr>)"
    by (simp add: prod_eq_iff demo_world_def)
next
  let ?e = "demo_env\<lparr>fetch_verify := \<lambda>transactionId. Inr JNull\<rparr>"
  have s: "signature_verified ?e (demo_request happy_body)"
    by (simp add: signature_verified_def demo_env_def demo_request_def happy_body_def demo_body_def)
  have ev: "event_successful (req_body (demo_request happy_body))"
    by (simp add: demo_req_body happy_event)
  have p: "get_path (req_body (demo_request happy_body)) [''data'', ''id''] = Inr (JNum 4242)"
    by (simp add: demo_req_body happy_body_def demo_body_def demo_payment_def)
  have f: "fetch_verify ?e (JNum 4242) = Inr JNull"
    by simp
  have n: "\<not> verification_successful JNull"
    by (simp add: verification_successful_def)
  note t = handler_rejects_failed_verification [OF demo_post s ev p f n, of demo_world]
  from t show "res_status (fst (handler ?e (demo_request happy_body) demo_world)) = 500"
    by simp
  from t show "snd (handler ?e (demo_request happy_body) demo_world) =
      demo_world\<lparr>verify_calls := [JNum 4242]\<rparr>"
    by (simp add: demo_world_def)
qed

text \<open>
  C5. \<^verbatim>\<open>parseTransactionRef\<close> splits the reference at the underscores and yields the
  second segment when there are at least three and the first is \<^verbatim>\<open>boost\<close>, nothing
  otherwise; so it yields \<open>ident\<close> exactly for the references \<^verbatim>\<open>boost_\<close>\<open>ident\<close>\<^verbatim>\<open>_\<close>\<open>rest\<close>
  with no underscore in \<open>ident\<close>. When it yields nothing for the reference of a request
  that has passed the signature check, the filter and the verification, the response is
  400 and nothing is written.
\<close>

theorem parseTransactionRef_shape:
  "parseTransactionRef txRef =
     (if 3 \<le> length (split CHR ''_'' txRef) \<and> hd (split CHR ''_'' txRef) = ''boost''
      then Some (split CHR ''_'' txRef ! 1) else None) \<and>
   (parseTransactionRef txRef = Some ident \<longleftrightarrow>
      (\<exists>rest. txRef = ''boost_'' @ ident @ ''_'' @ rest \<and> CHR ''_'' \<notin> set ident)) \<and>
   (req_method req = ''POST'' \<and> signature_verified e req \<and>
    event_successful (req_body req) \<and> reverified e (req_body req) \<and>
    get_path (req_body req) [''data'', ''tx_ref''] = Inr (JStr txRef) \<and>
    parseTransactionRef txRef = None \<longrightarrow>
      fst (handler e req w) =
        \<lparr>res_status = 400,
         res_json = JObj [(''error'', JStr ''Invalid transaction reference'')]\<rparr> \<and>
      unchanged w (snd (handler e req w)))"
proof (intro conjI impI)
  have "split CHR ''_'' txRef \<noteq> []"
    by (rule split_not_Nil)
  then have "split CHR ''_'' txRef ! 0 = hd (split CHR ''_'' txRef)"
    by (simp add: hd_conv_nth)
  then show "parseTransactionRef txRef =
     (if 3 \<le> length (split CHR ''_'' txRef) \<and> hd (split CHR ''_'' txRef) = ''boost''
      then Some (split CHR ''_'' txRef ! 1) else None)"
    by (simp add: parseTransactionRef_def Let_def)
next
  show "parseTransactionRef txRef = Some ident \<longleftrightarrow>
      (\<exists>rest. txRef = ''boost_'' @ ident @ ''_'' @ rest \<and> CHR ''_'' \<notin> set ident)"
    by (rule parseTransactionRef_Some_iff)
next
  assume a: "req_method req = ''POST'' \<and> signature_verified e req \<and>
    event_successful (req_body req) \<and> reverified e (req_body req) \<and>
    get_path (req_body req) [''data'', ''tx_ref''] = Inr (JStr txRef) \<and>
    parseTransactionRef txRef = None"
  then have "fst (handler e req w) =
        \<lparr>res_status = 400,
         res_json = JObj [(''error'', JStr ''Invalid transaction reference'')]\<rparr> \<and>
      unchanged w (snd (handler e req w))"
    by (intro handler_rejects_reference) blast+
  then show "fst (handler e req w) =
        \<lparr>res_status = 400,
         res_json = JObj [(''error'', JStr ''Invalid transaction reference'')]\<rparr>"
    and "unchanged w (snd (handler e req w))"
    by simp_all
qed

theorem parseTransactionRef_shape_witness:
  "parseTransactionRef ''boost_evt123_1699999999'' = Some ''evt123'' \<and>
   parseTransactionRef ''order_77'' = None \<and>
   fst (handler demo_env
          (demo_request (demo_body ''charge.completed''
             (demo_payment ''successful'' 5000 ''NGN'' ''order_77''))) demo_world) =
     \<lparr>res_status = 400,
      res_json = JObj [(''error'', JStr ''Invalid transaction reference'')]\<rparr> \<and>
   unchanged demo_world
     (snd (handler demo_env
          (demo_request (demo_body ''charge.completed''
             (demo_payment ''successful'' 5000 ''NGN'' ''order_77''))) demo_world))"
proof -
  let ?b = "demo_body ''charge.completed'' (demo_payment ''successful'' 5000 ''NGN'' ''order_77'')"
  note t = parseTransactionRef_shape [of "''order_77''" "''evt123''" "demo_request ?b" demo_env demo_world]
  have n: "parseTransactionRef ''order_77'' = None"
    by (simp add: parseTransactionRef_def)
  have "req_method (demo_request ?b) = ''POST'' \<and> signature_verified demo_env (demo_request ?b) \<and>
    event_successful (req_body (demo_request ?b)) \<and> reverified demo_env (req_body (demo_request ?b)) \<and>
    get_path (req_body (demo_request ?b)) [''data'', ''tx_ref''] = Inr (JStr ''order_77'') \<and>
    parseTransactionRef ''order_77'' = None"
    by (simp only: demo_post demo_signed [OF demo_body_defined] demo_req_body demo_event
        happy_reverified demo_tx_ref n simp_thms)
  with t have "fst (handler demo_env (demo_request ?b) demo_world) =
      \<lparr>res_status = 400,
       res_json = JObj [(''error'', JStr ''Invalid transaction reference'')]\<rparr> \<and>
    unchanged demo_world (snd (handler demo_env (demo_request ?b) demo_world))"
    by blast
  with n demo_parse show ?thesis
    by simp
qed

text \<open>
  C8. A record synthesised at the instant \<open>T\<close> (the reading of \<^verbatim>\<open>new Date()\<close>, in
  milliseconds) has \<^verbatim>\<open>createdAt\<close> the ISO text of \<open>T\<close> and \<^verbatim>\<open>expiresAt\<close> the ISO text
  of \<open>T\<close> plus 604800 seconds, to the millisecond; so has every document the handler
  stores.
\<close>

theorem expiresAt_seven_days:
  assumes "new_Date e = T"
  shows "(packageData e verification adCode = Inr record \<longrightarrow>
            get_prop record ''createdAt'' = Inr (JStr (toISOString e T)) \<and>
            get_prop record ''expiresAt'' = Inr (JStr (toISOString e (T + 604800 * 1000)))) \<and>
         (handler e req w = (res, w') \<and> \<not> unchanged w w' \<longrightarrow>
            (\<exists>path doc. writes w' = writes w @ [(path, doc)] \<and>
               db w' = (db w)(path \<mapsto> doc) \<and>
               get_prop doc ''createdAt'' = Inr (JStr (toISOString e T)) \<and>
               get_prop doc ''expiresAt'' = Inr (JStr (toISOString e (T + 604800 * 1000)))))"
proof (intro conjI impI)
  assume "packageData e verification adCode = Inr record"
  from packageData_fields(2,3) [OF this] assms
  show "get_prop record ''createdAt'' = Inr (JStr (toISOString e T))"
    and "get_prop record ''expiresAt'' = Inr (JStr (toISOString e (T + 604800 * 1000)))"
    by simp_all
next
  assume "handler e req w = (res, w') \<and> \<not> unchanged w w'"
  then have h: "handler e req w = (res, w')" and u: "\<not> unchanged w w'"
    by simp_all
  obtain v ident doc where
    p: "packageData e v (generateAdCode (Math_random e)) = Inr doc" and
    w: "writes w' = writes w @ [(doc_path ident (packageId e), doc)]"
       "db w' = (db w)(doc_path ident (packageId e) \<mapsto> doc)"
    by (rule handler_stored [OF h u])
  from packageData_fields(2,3) [OF p] w
  have "writes w' = writes w @ [(doc_path ident (packageId e), doc)] \<and>
      db w' = (db w)(doc_path ident (packageId e) \<mapsto> doc) \<and>
      get_prop doc ''createdAt'' = Inr (JStr (toISOString e T)) \<and>
      get_prop doc ''expiresAt'' = Inr (JStr (toISOString e (T + 604800 * 1000)))"
    unfolding assms by (intro conjI)
  then show "\<exists>path doc. writes w' = writes w @ [(path, doc)] \<and>
               db w' = (db w)(path \<mapsto> doc) \<and>
               get_prop doc ''createdAt'' = Inr (JStr (toISOString e T)) \<and>
               get_prop doc ''expiresAt'' = Inr (JStr (toISOString e (T + 604800 * 1000)))"
    by blast
qed

theorem expiresAt_seven_days_witness:
  "new_Date demo_env = 1699999999000 \<and>
   packageData demo_env demo_verification ''ADSSSSSSSSSSS'' = Inr demo_document \<and>
   get_prop demo_document ''createdAt'' = Inr (JStr ''2023-11-14T22:13:19.000Z'') \<and>
   get_prop demo_document ''expiresAt'' = Inr (JStr ''2023-11-21T22:13:19.000Z'') \<and>
   toISOString demo_env 1699999999000 = ''2023-11-14T22:13:19.000Z'' \<and>
   toISOString demo_env (1699999999000 + 604800 * 1000) = ''2023-11-21T22:13:19.000Z''"
proof -
  have T: "new_Date demo_env = 1699999999000"
    by (simp add: demo_env_def)
  have c: "toISOString demo_env 1699999999000 = ''2023-11-14T22:13:19.000Z''"
    using demo_createdAt unfolding T .
  have x: "toISOString demo_env (1699999999000 + 604800 * 1000) = ''2023-11-21T22:13:19.000Z''"
    using demo_expiresAt unfolding T by simp
  note t = expiresAt_seven_days [OF T, of demo_verification "''ADSSSSSSSSSSS''" demo_document]
  note p = conjunct1 [OF t, THEN mp, OF demo_packageData]
  have a: "get_prop demo_document ''createdAt'' = Inr (JStr ''2023-11-14T22:13:19.000Z'')"
    using conjunct1 [OF p] unfolding c .
  have b: "get_prop demo_document ''expiresAt'' = Inr (JStr ''2023-11-21T22:13:19.000Z'')"
    using conjunct2 [OF p] unfolding x .
  show ?thesis
    by (intro conjI T demo_packageData a b c x)
qed

text \<open>
  C9. Two signed POST requests with the same event, whose data differ in \<^verbatim>\<open>amount\<close>,
  \<^verbatim>\<open>currency\<close> and \<^verbatim>\<open>customer\<close> at most, have the same outcome in the same environment
  (which gives both the same verification response): the same response and the same world
  afterwards. Whenever a document is stored, its payment fields and the amount of the
  response are those of the verification response.
\<close>

theorem payment_fields_from_verification:
  assumes "req_method r1 = ''POST''" and "req_method r2 = ''POST''"
    and "signature_verified e r1" and "signature_verified e r2"
    and "get_prop (req_body r1) ''event'' = get_prop (req_body r2) ''event''"
    and "get_prop (req_body r1) ''data'' = Inr d1"
    and "get_prop (req_body r2) ''data'' = Inr d2"
    and "\<forall>k. k \<notin> {''amount'', ''currency'', ''customer''} \<longrightarrow> get_prop d1 k = get_prop d2 k"
  shows "handler e r1 w = handler e r2 w \<and>
         (\<not> unchanged w (snd (handler e r1 w)) \<longrightarrow>
            (\<exists>v path doc. verification_of e (req_body r1) = Some v \<and>
               writes (snd (handler e r1 w)) = writes w @ [(path, doc)] \<and>
               payment_fields_from doc v \<and>
               get_path (res_json (fst (handler e r1 w))) [''data'', ''amount''] =
                 get_path v [''data'', ''amount'']))"
proof (intro conjI impI)
  from assms(8) have k: "get_prop d1 ''status'' = get_prop d2 ''status''"
    "get_prop d1 ''id'' = get_prop d2 ''id''" "get_prop d1 ''tx_ref'' = get_prop d2 ''tx_ref''"
    by simp_all
  show "handler e r1 w = handler e r2 w"
    by (simp only: handler_signed [OF assms(1,3)] handler_signed [OF assms(2,4)]
        filter_cong [OF assms(5,6,7) k])
next
  assume u: "\<not> unchanged w (snd (handler e r1 w))"
  obtain res w' where h: "handler e r1 w = (res, w')"
    by (cases "handler e r1 w")
  with u have "\<not> unchanged w w'"
    by simp
  then obtain v ident doc amount where
    v: "verification_of e (req_body r1) = Some v" and
    p: "packageData e v (generateAdCode (Math_random e)) = Inr doc" and
    a: "get_path v [''data'', ''amount''] = Inr amount" and
    w: "writes w' = writes w @ [(doc_path ident (packageId e), doc)]" and
    r: "res = success e ident amount"
    by (rule handler_stored [OF h])
  have "get_path (res_json res) [''data'', ''amount''] = get_path v [''data'', ''amount'']"
    unfolding a r success_def by simp
  with v w packageData_fields(1) [OF p]
  have "verification_of e (req_body r1) = Some v \<and>
      writes (snd (handler e r1 w)) = writes w @ [(doc_path ident (packageId e), doc)] \<and>
      payment_fields_from doc v \<and>
      get_path (res_json (fst (handler e r1 w))) [''data'', ''amount''] =
        get_path v [''data'', ''amount'']"
    unfolding h fst_conv snd_conv by (intro conjI)
  then show "\<exists>v path doc. verification_of e (req_body r1) = Some v \<and>
               writes (snd (handler e r1 w)) = writes w @ [(path, doc)] \<and>
               payment_fields_from doc v \<and>
               get_path (res_json (fst (handler e r1 w))) [''data'', ''amount''] =
                 get_path v [''data'', ''amount'']"
    by blast
qed

theorem payment_fields_from_verification_witness:
  "handler demo_env (demo_request happy_body) demo_world =
     handler demo_env
       (demo_request (demo_body ''charge.completed''
          (demo_payment ''successful'' 1 ''USD'' ''boost_evt123_1699999999''))) demo_world \<and>
   writes (snd (handler demo_env
       (demo_request (demo_body ''charge.completed''
          (demo_payment ''successful'' 1 ''USD'' ''boost_evt123_1699999999''))) demo_world)) =
     [(demo_path, demo_document)] \<and>
   get_prop demo_document ''totalAmountPaid'' = Inr (JNum 5000) \<and>
   get_prop demo_document ''currency'' = Inr (JStr ''NGN'') \<and>
   payment_fields_from demo_document demo_verification"
proof -
  let ?d1 = "demo_payment ''successful'' 5000 ''NGN'' ''boost_evt123_1699999999''"
  let ?d2 = "demo_payment ''successful'' 1 ''USD'' ''boost_evt123_1699999999''"
  let ?b2 = "demo_body ''charge.completed'' ?d2"
  have b1: "happy_body \<noteq> JUndefined"
    by (simp add: happy_body_def demo_body_def)
  have e: "get_prop (req_body (demo_request happy_body)) ''event'' =
      get_prop (req_body (demo_request ?b2)) ''event''"
    by (simp add: demo_req_body happy_body_def demo_body_def)
  have d1: "get_prop (req_body (demo_request happy_body)) ''data'' = Inr ?d1"
    by (simp add: demo_req_body happy_body_def demo_body_def)
  have d2: "get_prop (req_body (demo_request ?b2)) ''data'' = Inr ?d2"
    by (simp add: demo_req_body demo_body_def)
  have k: "\<forall>k. k \<notin> {''amount'', ''currency'', ''customer''} \<longrightarrow> get_prop ?d1 k = get_prop ?d2 k"
    by (simp add: demo_payment_def)
  note t = payment_fields_from_verification [OF demo_post demo_post demo_signed [OF b1]
      demo_signed [OF demo_body_defined] e d1 d2 k, of demo_world]
  from t have same: "handler demo_env (demo_request happy_body) demo_world =
      handler demo_env (demo_request ?b2) demo_world"
    by (rule conjunct1)
  have w: "writes (snd (handler demo_env (demo_request happy_body) demo_world)) =
      [(demo_path, demo_document)]"
    by (simp add: demo_run)
  moreover have "writes demo_world = []"
    by (simp add: demo_world_def)
  ultimately have "\<not> unchanged demo_world
      (snd (handler demo_env (demo_request happy_body) demo_world))"
    by (simp add: unchanged_def)
  from conjunct2 [OF t, THEN mp, OF this] obtain v path doc where
    v: "verification_of demo_env (req_body (demo_request happy_body)) = Some v" and
    s: "writes (snd (handler demo_env (demo_request happy_body) demo_world)) =
          writes demo_world @ [(path, doc)]" and
    f: "payment_fields_from doc v"
    by (elim exE conjE)
  have "verification_of demo_env (req_body (demo_request happy_body)) = Some demo_verification"
    by (simp add: demo_req_body verification_of_def happy_body_def demo_body_def
        demo_payment_def demo_env_def)
  with v have "v = demo_verification"
    by simp
  moreover from s w \<open>writes demo_world = []\<close> have "doc = demo_document"
    by simp
  ultimately have p: "payment_fields_from demo_document demo_verification"
    using f by simp
  have a: "get_prop demo_document ''totalAmountPaid'' = Inr (JNum 5000)"
    and c: "get_prop demo_document ''currency'' = Inr (JStr ''NGN'')"
    by (simp_all add: demo_document_def)
  from w have w2: "writes (snd (handler demo_env (demo_request ?b2) demo_world)) =
      [(demo_path, demo_document)]"
    unfolding same .
  show ?thesis
    by (intro conjI same w2 a c p)
qed

text \<open>
  C10. A reference with at least three segments, the first \<^verbatim>\<open>boost\<close> and the second
  empty, is a reference that starts with \<^verbatim>\<open>boost__\<close>. For it \<^verbatim>\<open>parseTransactionRef\<close>
  returns the empty string, which the handler takes for no identifier: the response is
  400 and nothing is written.
\<close>

theorem empty_identifier_rejected:
  assumes "3 \<le> length (split CHR ''_'' txRef)"
    and "split CHR ''_'' txRef ! 0 = ''boost''"
    and "split CHR ''_'' txRef ! 1 = ''''"
  shows "parseTransactionRef txRef = Some '''' \<and>
         (\<exists>rest. txRef = ''boost__'' @ rest) \<and>
         (req_method req = ''POST'' \<and> signature_verified e req \<and>
          event_successful (req_body req) \<and> reverified e (req_body req) \<and>
          get_path (req_body req) [''data'', ''tx_ref''] = Inr (JStr txRef) \<longrightarrow>
            fst (handler e req w) =
              \<lparr>res_status = 400,
               res_json = JObj [(''error'', JStr ''Invalid transaction reference'')]\<rparr> \<and>
            unchanged w (snd (handler e req w)))"
proof -
  from assms have p: "parseTransactionRef txRef = Some ''''"
    by (simp add: parseTransactionRef_def)
  then have "\<exists>rest. txRef = ''boost__'' @ rest"
    by (simp add: parseTransactionRef_Some_iff)
  moreover from p have "parseTransactionRef txRef = None \<or> parseTransactionRef txRef = Some ''''"
    by simp
  then have "req_method req = ''POST'' \<and> signature_verified e req \<and>
          event_successful (req_body req) \<and> reverified e (req_body req) \<and>
          get_path (req_body req) [''data'', ''tx_ref''] = Inr (JStr txRef) \<longrightarrow>
            fst (handler e req w) =
              \<lparr>res_status = 400,
               res_json = JObj [(''error'', JStr ''Invalid transaction reference'')]\<rparr> \<and>
            unchanged w (snd (handler e req w))"
    by (intro impI handler_rejects_reference) blast+
  ultimately show ?thesis
    using p by blast
qed

theorem empty_identifier_rejected_witness:
  "split CHR ''_'' ''boost__1699999999'' = [''boost'', '''', ''1699999999''] \<and>
   parseTransactionRef ''boost__1699999999'' = Some '''' \<and>
   fst (handler demo_env
          (demo_request (demo_body ''charge.completed''
             (demo_payment ''successful'' 5000 ''NGN'' ''boost__1699999999''))) demo_world) =
     \<lparr>res_status = 400,
      res_json = JObj [(''error'', JStr ''Invalid transaction reference'')]\<rparr> \<and>
   unchanged demo_world
     (snd (handler demo_env
          (demo_request (demo_body ''charge.completed''
             (demo_payment ''successful'' 5000 ''NGN'' ''boost__1699999999''))) demo_world))"
proof -
  let ?b = "demo_body ''charge.completed''
    (demo_payment ''successful'' 5000 ''NGN'' ''boost__1699999999'')"
  have s: "split CHR ''_'' ''boost__1699999999'' = [''boost'', '''', ''1699999999'']"
    by simp
  have h: "3 \<le> length (split CHR ''_'' ''boost__1699999999'')"
    "split CHR ''_'' ''boost__1699999999'' ! 0 = ''boost''"
    "split CHR ''_'' ''boost__1699999999'' ! 1 = ''''"
    unfolding s by simp_all
  note t = empty_identifier_rejected [OF h, of "demo_request ?b" demo_env demo_world]
  have "req_method (demo_request ?b) = ''POST'' \<and> signature_verified demo_env (demo_request ?b) \<and>
    event_successful (req_body (demo_request ?b)) \<and> reverified demo_env (req_body (demo_request ?b)) \<and>
    get_path (req_body (demo_request ?b)) [''data'', ''tx_ref''] = Inr (JStr ''boost__1699999999'')"
    by (simp only: demo_post demo_signed [OF demo_body_defined] demo_req_body demo_event
        happy_reverified demo_tx_ref simp_thms)
  with t have "parseTransactionRef ''boost__1699999999'' = Some '''' \<and>
    fst (handler demo_env (demo_request ?b) demo_world) =
      \<lparr>res_status = 400,
       res_json = JObj [(''error'', JStr ''Invalid transaction reference'')]\<rparr> \<and>
    unchanged demo_world (snd (handler demo_env (demo_request ?b) demo_world))"
    by blast
  with s show ?thesis
    by simp
qed

end
